theory Spec2Isabelle
  imports Complex_Main "HOL-Library.AList"
begin

section \<open>Data model of the viewer (src/app.js)\<close>

text \<open>
  The viewer is a single-threaded JavaScript program over the scene graph of an external
  graphics engine. Numbers are JavaScript doubles; they are modelled as reals, and a run in
  which a division by zero would produce Infinity or NaN is reported as the error
  \<open>NonFinite\<close> instead of being followed further. JavaScript exceptions are the error
  \<open>TypeError\<close>. Objects with identity (geometries, materials, textures) carry a
  reference number; scene nodes carry their \<open>uuid\<close>.
\<close>

type_synonym ref = nat
type_synonym ident = nat

datatype error = TypeError | NonFinite

record vec3 =
  vx :: real
  vy :: real
  vz :: real

text \<open>
  The value of an own enumerable property of a material object. \<open>JDisposable r\<close> is an
  object with a \<open>dispose\<close> function (a texture); \<open>JPlain\<close> is any other object.
\<close>

datatype jsval = JNum real | JBool bool | JStr string | JNull | JDisposable ref | JPlain

record material =
  mref :: ref
  props :: "(string \<times> jsval) list"

text \<open>
  The \<open>material\<close> field of a node: absent, one material, or a JavaScript array of
  materials. An array entry may be \<open>null\<close> (\<open>None\<close>); the array object has own
  properties of its own (second argument), which assignments such as
  \<open>child.material.envMap = texture\<close> write when the field holds an array.
\<close>

datatype matslot =
    NoMaterial
  | Single material
  | Multi "material option list" "(string \<times> jsval) list"

record object3d =
  uuid :: ident
  isMesh :: bool
  geometry :: "ref option"
  material :: matslot
  castShadow :: bool
  receiveShadow :: bool

datatype node = Node object3d "node list"

datatype resource = Geometry ref | Material ref | Texture ref

datatype event =
    Dispose resource
  | CallDisposeObject ident
  | GizmoDetach
  | GizmoAttach ident
  | SceneRemove ident
  | SceneAdd ident
  | SetMapping ref
  | SetEnvironment ref
  | SetBackground ref
  | SetEnvMap ident ref
  | OrbitUpdate
  | Alert string
  | ConsoleError string
  | ConsoleWarn string
  | ConsoleLog string
  | CreateObjectURL
  | RevokeObjectURL

subsection \<open>Object3D.traverse\<close>

text \<open>
  \<open>obj.traverse(cb)\<close> calls \<open>cb\<close> on the object and then traverses each child in
  order. The callbacks of app.js change fields of the visited node and variables of the
  enclosing scope, so a callback is a function from the node and a state to both.
\<close>

fun traverse :: "(object3d \<Rightarrow> 's \<Rightarrow> object3d \<times> 's) \<Rightarrow> node \<Rightarrow> 's \<Rightarrow> node \<times> 's"
  and traverse_list :: "(object3d \<Rightarrow> 's \<Rightarrow> object3d \<times> 's) \<Rightarrow> node list \<Rightarrow> 's \<Rightarrow> node list \<times> 's"
  where
  "traverse cb (Node obj cs) s =
     (case cb obj s of (obj', s1) \<Rightarrow>
        (case traverse_list cb cs s1 of (cs', s2) \<Rightarrow> (Node obj' cs', s2)))"
| "traverse_list cb [] s = ([], s)"
| "traverse_list cb (c # cs) s =
     (case traverse cb c s of (c', s1) \<Rightarrow>
        (case traverse_list cb cs s1 of (cs', s2) \<Rightarrow> (c' # cs', s2)))"

text \<open>The nodes of a subtree in the order \<open>traverse\<close> visits them.\<close>

fun flatten :: "node \<Rightarrow> object3d list"
  and flatten_list :: "node list \<Rightarrow> object3d list"
  where
  "flatten (Node obj cs) = obj # flatten_list cs"
| "flatten_list [] = []"
| "flatten_list (c # cs) = flatten c @ flatten_list cs"

text \<open>Running a callback over a list of nodes, threading the state.\<close>

fun visit :: "(object3d \<Rightarrow> 's \<Rightarrow> object3d \<times> 's) \<Rightarrow> object3d list \<Rightarrow> 's \<Rightarrow> object3d list \<times> 's"
  where
  "visit cb [] s = ([], s)"
| "visit cb (obj # objs) s =
     (case cb obj s of (obj', s1) \<Rightarrow>
        (case visit cb objs s1 of (objs', s2) \<Rightarrow> (obj' # objs', s2)))"

subsection \<open>disposeObject and disposeMaterial\<close>

text \<open>
  \<open>disposeMaterial(material)\<close> walks \<open>Object.keys(material)\<close>, calls
  \<open>dispose\<close> on every property value that is an object with a \<open>dispose\<close>
  function, and then disposes the material. On \<open>null\<close> \<open>Object.keys\<close> throws.
\<close>

fun disposeValue :: "jsval \<Rightarrow> event list" where
  "disposeValue (JDisposable r) = [Dispose (Texture r)]"
| "disposeValue _ = []"

fun disposeMaterial :: "material option \<Rightarrow> error + event list" where
  "disposeMaterial None = Inl TypeError"
| "disposeMaterial (Some m) =
     Inr (concat (map (\<lambda>(key, value). disposeValue value) (props m)) @ [Dispose (Material (mref m))])"

fun disposeMaterials :: "material option list \<Rightarrow> error + event list" where
  "disposeMaterials [] = Inr []"
| "disposeMaterials (m # ms) =
     (case disposeMaterial m of
        Inl e \<Rightarrow> Inl e
      | Inr t1 \<Rightarrow> (case disposeMaterials ms of Inl e \<Rightarrow> Inl e | Inr t2 \<Rightarrow> Inr (t1 @ t2)))"

fun disposeSlot :: "matslot \<Rightarrow> error + event list" where
  "disposeSlot NoMaterial = Inr []"
| "disposeSlot (Single m) = disposeMaterial (Some m)"
| "disposeSlot (Multi ms ps) = disposeMaterials ms"

text \<open>
  The callback of \<open>disposeObject\<close>. The state is the trace of dispose calls so far, or
  the exception that ended the traversal.
\<close>

definition disposeChild :: "object3d \<Rightarrow> error + event list \<Rightarrow> object3d \<times> (error + event list)" where
  "disposeChild child st =
     (case st of
        Inl e \<Rightarrow> (child, Inl e)
      | Inr t \<Rightarrow>
          (let t1 = (case geometry child of None \<Rightarrow> t | Some g \<Rightarrow> t @ [Dispose (Geometry g)])
           in (case disposeSlot (material child) of
                 Inl e \<Rightarrow> (child, Inl e)
               | Inr t2 \<Rightarrow> (child, Inr (t1 @ t2)))))"

text \<open>
  \<open>disposeObject(obj)\<close> traverses the subtree with that callback. The trace of a call
  starts with \<open>CallDisposeObject\<close> and the identity of the root, which marks the call
  itself; the dispose calls follow.
\<close>

definition rootUuid :: "node \<Rightarrow> ident" where
  "rootUuid n = (case n of Node obj cs \<Rightarrow> uuid obj)"

definition disposeObject :: "node \<Rightarrow> error + event list" where
  "disposeObject obj = snd (traverse disposeChild obj (Inr [CallDisposeObject (rootUuid obj)]))"

subsection \<open>Vectors, transforms and bounding boxes\<close>

definition vsub :: "vec3 \<Rightarrow> vec3 \<Rightarrow> vec3" where
  "vsub a b = \<lparr>vx = vx a - vx b, vy = vy a - vy b, vz = vz a - vz b\<rparr>"

definition vadd :: "vec3 \<Rightarrow> vec3 \<Rightarrow> vec3" where
  "vadd a b = \<lparr>vx = vx a + vx b, vy = vy a + vy b, vz = vz a + vz b\<rparr>"

definition vmul :: "vec3 \<Rightarrow> vec3 \<Rightarrow> vec3" where
  "vmul a b = \<lparr>vx = vx a * vx b, vy = vy a * vy b, vz = vz a * vz b\<rparr>"

definition vmin :: "vec3 \<Rightarrow> vec3 \<Rightarrow> vec3" where
  "vmin a b = \<lparr>vx = min (vx a) (vx b), vy = min (vy a) (vy b), vz = min (vz a) (vz b)\<rparr>"

definition vmax :: "vec3 \<Rightarrow> vec3 \<Rightarrow> vec3" where
  "vmax a b = \<lparr>vx = max (vx a) (vx b), vy = max (vy a) (vy b), vz = max (vz a) (vz b)\<rparr>"

definition vzero :: vec3 where
  "vzero = \<lparr>vx = 0, vy = 0, vz = 0\<rparr>"

definition setScalar :: "real \<Rightarrow> vec3" where
  "setScalar k = \<lparr>vx = k, vy = k, vz = k\<rparr>"

text \<open>
  The engine's rotation matrix for Euler angles in its default order XYZ, applied to a
  vector.
\<close>

definition applyEuler :: "vec3 \<Rightarrow> vec3 \<Rightarrow> vec3" where
  "applyEuler r v =
     (let a = cos (vx r); b = sin (vx r);
          c = cos (vy r); d = sin (vy r);
          e = cos (vz r); f = sin (vz r)
      in \<lparr>vx = c * e * vx v - c * f * vy v + d * vz v,
          vy = (a * f + b * e * d) * vx v + (a * e - b * f * d) * vy v - b * c * vz v,
          vz = (b * f - a * e * d) * vx v + (b * e + a * f * d) * vy v + a * c * vz v\<rparr>)"

record transform =
  tposition :: vec3
  trotation :: vec3
  tscale :: vec3

text \<open>
  A loaded model: the root of a scene subtree with its name and its own transform. The
  engine derives the world-space bounding box from the bounding-box corners of the
  geometries below the root; \<open>corners\<close> holds them in the root's local coordinates.
  No function of app.js changes them.
\<close>

record model3d =
  tree :: node
  name :: string
  position :: vec3
  rotation :: vec3
  scale :: vec3
  corners :: "vec3 list"

definition toWorld :: "model3d \<Rightarrow> vec3 \<Rightarrow> vec3" where
  "toWorld m v = vadd (position m) (applyEuler (rotation m) (vmul (scale m) v))"

text \<open>
  \<open>THREE.Box3\<close>: \<open>None\<close> is the empty box. \<open>getSize\<close> and \<open>getCenter\<close> of the
  empty box are the zero vector.
\<close>

type_synonym box3 = "(vec3 \<times> vec3) option"

fun expandByPoint :: "box3 \<Rightarrow> vec3 \<Rightarrow> box3" where
  "expandByPoint None p = Some (p, p)"
| "expandByPoint (Some (lo, hi)) p = Some (vmin lo p, vmax hi p)"

definition setFromPoints :: "vec3 list \<Rightarrow> box3" where
  "setFromPoints ps = foldl expandByPoint None ps"

definition setFromObject :: "model3d \<Rightarrow> box3" where
  "setFromObject m = setFromPoints (map (toWorld m) (corners m))"

fun getSize :: "box3 \<Rightarrow> vec3" where
  "getSize None = vzero"
| "getSize (Some (lo, hi)) = vsub hi lo"

fun getCenter :: "box3 \<Rightarrow> vec3" where
  "getCenter None = vzero"
| "getCenter (Some (lo, hi)) =
     \<lparr>vx = (vx lo + vx hi) * 0.5, vy = (vy lo + vy hi) * 0.5, vz = (vz lo + vz hi) * 0.5\<rparr>"

definition max3 :: "real \<Rightarrow> real \<Rightarrow> real \<Rightarrow> real" where
  "max3 a b c = max a (max b c)"

definition maxDimOf :: "box3 \<Rightarrow> real" where
  "maxDimOf b = max3 (vx (getSize b)) (vy (getSize b)) (vz (getSize b))"

subsection \<open>Global state\<close>

datatype sceneChild = Fixture string | ModelObj ident

datatype background = BgColor nat | BgTexture ref

text \<open>
  The module-level variables of app.js, the parts of the engine objects and of the page
  they write, a counter for the identities of objects created with \<open>new\<close>, and the
  trace of calls into the engine and the browser. Of the orbit controller the state holds
  the settings that \<open>init()\<close> writes and the motion that is pending in the controller:
  the rotation (\<open>sphericalDelta\<close>), the pan (\<open>panOffset\<close>) and the zoom
  (\<open>scale\<close>) that its pointer and wheel handlers have collected.
\<close>

record viewer =
  sceneChildren :: "sceneChild list"
  sceneEnvironment :: "ref option"
  sceneBackground :: background
  cameraPosition :: vec3
  cameraFov :: real
  orbitTarget :: vec3
  orbitEnableDamping :: bool
  orbitDampingFactor :: real
  orbitMinDistance :: real
  orbitMaxDistance :: real
  orbitDeltaTheta :: real
  orbitDeltaPhi :: real
  orbitPanOffset :: vec3
  orbitScale :: real
  gizmoObject :: "ident option"
  currentModel :: "model3d option"
  currentHDRI :: "ref option"
  autoRotate :: bool
  autoRotateSpeed :: real
  modelInitialTransform :: "transform option"
  hologramActive :: bool
  originalMaterials :: "ident \<rightharpoonup> matslot"
  nextRef :: ref
  hdriToggle :: "bool option"
  holoToggle :: "bool option"
  loadingVisible :: bool
  loadingText :: string
  trace :: "event list"

text \<open>
  The state after line 109 of \<open>init()\<close>: the scene is built, the two default loads are
  started, none has completed and no frame has been drawn. The two check boxes are
  elements of the page; their initial state is a parameter.
\<close>

definition initViewer :: "bool \<Rightarrow> bool \<Rightarrow> viewer" where
  "initViewer hdriChecked holoChecked =
     \<lparr>sceneChildren =
        [Fixture ''__ambient__'', Fixture ''__dirLight__'', Fixture ''__fillLight__'',
         Fixture ''__hemiLight__'', Fixture ''gridHelper'', Fixture ''axesHelper'',
         Fixture ''__ground__'', Fixture ''transformControls''],
      sceneEnvironment = None,
      sceneBackground = BgColor 0,
      cameraPosition = \<lparr>vx = 3, vy = 2, vz = 5\<rparr>,
      cameraFov = 45,
      orbitTarget = vzero,
      orbitEnableDamping = True,
      orbitDampingFactor = 0.08,
      orbitMinDistance = 0.1,
      orbitMaxDistance = 100,
      orbitDeltaTheta = 0,
      orbitDeltaPhi = 0,
      orbitPanOffset = vzero,
      orbitScale = 1,
      gizmoObject = None,
      currentModel = None,
      currentHDRI = None,
      autoRotate = True,
      autoRotateSpeed = 0.5,
      modelInitialTransform = None,
      hologramActive = False,
      originalMaterials = Map.empty,
      nextRef = 0,
      hdriToggle = Some hdriChecked,
      holoToggle = Some holoChecked,
      loadingVisible = True,
      loadingText = ''Cargando modelo...'',
      trace = []\<rparr>"

definition showLoading :: "bool \<Rightarrow> string \<Rightarrow> viewer \<Rightarrow> viewer" where
  "showLoading visible message s =
     s\<lparr>loadingText := (if message \<noteq> [] then message else loadingText s),
       loadingVisible := visible\<rparr>"

definition emit :: "event list \<Rightarrow> viewer \<Rightarrow> viewer" where
  "emit es s = s\<lparr>trace := trace s @ es\<rparr>"

subsection \<open>The orbit controller\<close>

text \<open>
  \<open>orbitControls.update()\<close> of the engine's orbit controller, as \<open>init()\<close> sets it
  up (lines 85 to 90) and with the controller's defaults otherwise: the polar angle lies
  between 0 and pi, the azimuth has no limit, the controller does not rotate by itself, and
  the camera's up vector is the Y axis, so that the controller's own frame is the world's.
  The controller reads the offset of the camera from the target in spherical coordinates,
  adds the pending rotation, keeps the polar angle off the poles, moves the target by the
  pending pan, scales the radius by the pending zoom and clamps it between
  \<open>minDistance\<close> and \<open>maxDistance\<close>, puts the camera at the target plus the new
  offset, and lets the pending motion decay.
\<close>

record spherical =
  radius :: real
  phi :: real
  theta :: real

definition EPS :: real where
  "EPS = 0.000001"

definition clamp :: "real \<Rightarrow> real \<Rightarrow> real \<Rightarrow> real" where
  "clamp v lo hi = max lo (min hi v)"

text \<open>\<open>Math.atan2(y, x)\<close>, the angle of the point \<open>(x, y)\<close>.\<close>

definition atan2 :: "real \<Rightarrow> real \<Rightarrow> real" where
  "atan2 y x =
     (if 0 < x then arctan (y / x)
      else if x < 0 then (if 0 \<le> y then arctan (y / x) + pi else arctan (y / x) - pi)
      else if 0 < y then pi / 2
      else if y < 0 then - (pi / 2)
      else 0)"

definition vlength :: "vec3 \<Rightarrow> real" where
  "vlength v = sqrt (vx v * vx v + vy v * vy v + vz v * vz v)"

definition vscale :: "real \<Rightarrow> vec3 \<Rightarrow> vec3" where
  "vscale k v = \<lparr>vx = k * vx v, vy = k * vy v, vz = k * vz v\<rparr>"

definition setFromVector3 :: "vec3 \<Rightarrow> spherical" where
  "setFromVector3 v =
     (let r = vlength v
      in if r = 0 then \<lparr>radius = r, phi = 0, theta = 0\<rparr>
         else \<lparr>radius = r, phi = arccos (clamp (vy v / r) (- 1) 1),
               theta = atan2 (vx v) (vz v)\<rparr>)"

definition makeSafe :: "spherical \<Rightarrow> spherical" where
  "makeSafe sp = sp\<lparr>phi := clamp (phi sp) EPS (pi - EPS)\<rparr>"

definition setFromSpherical :: "spherical \<Rightarrow> vec3" where
  "setFromSpherical sp =
     (let sinPhiRadius = sin (phi sp) * radius sp
      in \<lparr>vx = sinPhiRadius * sin (theta sp), vy = cos (phi sp) * radius sp,
          vz = sinPhiRadius * cos (theta sp)\<rparr>)"

definition clampDistance :: "viewer \<Rightarrow> real \<Rightarrow> real" where
  "clampDistance s distance = max (orbitMinDistance s) (min (orbitMaxDistance s) distance)"

definition orbitUpdate :: "viewer \<Rightarrow> viewer" where
  "orbitUpdate s =
     (let offset = vsub (cameraPosition s) (orbitTarget s);
          sp0 = setFromVector3 offset;
          sp1 = (if orbitEnableDamping s
                 then sp0\<lparr>theta := theta sp0 + orbitDeltaTheta s * orbitDampingFactor s,
                          phi := phi sp0 + orbitDeltaPhi s * orbitDampingFactor s\<rparr>
                 else sp0\<lparr>theta := theta sp0 + orbitDeltaTheta s,
                          phi := phi sp0 + orbitDeltaPhi s\<rparr>);
          sp2 = makeSafe (sp1\<lparr>phi := max 0 (min pi (phi sp1))\<rparr>);
          target = (if orbitEnableDamping s
                    then vadd (orbitTarget s) (vscale (orbitDampingFactor s) (orbitPanOffset s))
                    else vadd (orbitTarget s) (orbitPanOffset s));
          sp3 = sp2\<lparr>radius := clampDistance s (radius sp2 * orbitScale s)\<rparr>;
          s1 = s\<lparr>orbitTarget := target,
                 cameraPosition := vadd target (setFromSpherical sp3)\<rparr>;
          s2 = (if orbitEnableDamping s
                then s1\<lparr>orbitDeltaTheta := orbitDeltaTheta s * (1 - orbitDampingFactor s),
                         orbitDeltaPhi := orbitDeltaPhi s * (1 - orbitDampingFactor s),
                         orbitPanOffset := vscale (1 - orbitDampingFactor s) (orbitPanOffset s)\<rparr>
                else s1\<lparr>orbitDeltaTheta := 0, orbitDeltaPhi := 0, orbitPanOffset := vzero\<rparr>)
      in emit [OrbitUpdate] (s2\<lparr>orbitScale := 1\<rparr>))"

subsection \<open>frameModel\<close>

text \<open>
  \<open>cameraZ\<close> of \<open>frameModel\<close>, from \<open>camera.fov\<close> in degrees and \<open>maxDim\<close>.
\<close>

definition cameraDistance :: "real \<Rightarrow> real \<Rightarrow> real" where
  "cameraDistance fovDeg maxDim = \<bar>maxDim / (2 * tan (fovDeg * (pi / 180) / 2))\<bar> * 1.2"

text \<open>
  Lines 409 to 418: \<open>frameModel\<close> computes the distance and writes the camera position
  and the orbit target. Where the divisor \<open>2 * tan (fov / 2)\<close> is zero the quotient is
  Infinity or NaN.
\<close>

definition frameWrites :: "model3d \<Rightarrow> viewer \<Rightarrow> error + viewer" where
  "frameWrites object s =
     (let box = setFromObject object;
          center = getCenter box;
          maxDim = maxDimOf box
      in if 2 * tan (cameraFov s * (pi / 180) / 2) = 0 then Inl NonFinite
         else
           (let cameraZ = cameraDistance (cameraFov s) maxDim
            in Inr (s\<lparr>cameraPosition :=
                         \<lparr>vx = vx center + cameraZ * 0.4,
                          vy = vy center + cameraZ * 0.25,
                          vz = vz center + cameraZ * 0.9\<rparr>,
                       orbitTarget := center\<rparr>)))"

text \<open>Line 419: the orbit controller then takes its step from what was written.\<close>

definition frameModel :: "model3d \<Rightarrow> viewer \<Rightarrow> error + viewer" where
  "frameModel object s =
     (case frameWrites object s of
        Inl e \<Rightarrow> Inl e
      | Inr s1 \<Rightarrow> Inr (orbitUpdate s1))"

definition resetCamera :: "viewer \<Rightarrow> error + viewer" where
  "resetCamera s =
     (case currentModel s of
        Some m \<Rightarrow> frameModel m s
      | None \<Rightarrow>
          Inr (orbitUpdate
                (s\<lparr>cameraPosition := \<lparr>vx = 3, vy = 2, vz = 5\<rparr>, orbitTarget := vzero\<rparr>)))"

subsection \<open>setupLoadedModel\<close>

text \<open>
  \<open>Object3D.remove\<close> takes the object out of the children; \<open>Object3D.add\<close> first
  takes the object from its present parent and then appends it.
\<close>

definition sceneRemove :: "ident \<Rightarrow> sceneChild list \<Rightarrow> sceneChild list" where
  "sceneRemove u cs = remove1 (ModelObj u) cs"

definition sceneAdd :: "ident \<Rightarrow> sceneChild list \<Rightarrow> sceneChild list" where
  "sceneAdd u cs = remove1 (ModelObj u) cs @ [ModelObj u]"

definition setProp :: "string \<Rightarrow> jsval \<Rightarrow> matslot \<Rightarrow> matslot" where
  "setProp key value slot =
     (case slot of
        NoMaterial \<Rightarrow> NoMaterial
      | Single m \<Rightarrow> Single (m\<lparr>props := AList.update key value (props m)\<rparr>)
      | Multi ms ps \<Rightarrow> Multi ms (AList.update key value ps))"

text \<open>Lines 186 to 190: the previous model is detached, removed and disposed.\<close>

definition removePreviousModel :: "viewer \<Rightarrow> error + viewer" where
  "removePreviousModel s =
     (case currentModel s of
        None \<Rightarrow> Inr s
      | Some old \<Rightarrow>
          (let s1 = emit [GizmoDetach] (s\<lparr>gizmoObject := None\<rparr>);
               s2 = emit [SceneRemove (rootUuid (tree old))]
                      (s1\<lparr>sceneChildren := sceneRemove (rootUuid (tree old)) (sceneChildren s1)\<rparr>)
           in (case disposeObject (tree old) of
                 Inl e \<Rightarrow> Inl e
               | Inr t \<Rightarrow> Inr (emit t s2))))"

text \<open>Lines 195 to 203: the callback that enables shadows on every mesh.\<close>

definition enableShadows :: "object3d \<Rightarrow> unit \<Rightarrow> object3d \<times> unit" where
  "enableShadows child u =
     (if isMesh child
      then (child\<lparr>castShadow := True, receiveShadow := True,
                  material := setProp ''envMapIntensity'' (JNum 1) (material child)\<rparr>, u)
      else (child, u))"

text \<open>Lines 192 to 203: the model is named and its meshes cast and receive shadows.\<close>

definition nameAndShadows :: "model3d \<Rightarrow> string \<Rightarrow> model3d" where
  "nameAndShadows model nm =
     (let m1 = model\<lparr>name := (if nm = [] then ''LoadedModel'' else nm)\<rparr>
      in m1\<lparr>tree := fst (traverse enableShadows (tree m1) ())\<rparr>)"

text \<open>
  Lines 206 to 219: the model is moved by the centre of its bounding box and lifted by
  half its height, and then rescaled when its largest dimension is above 10 or below
  0.1. \<open>3 / maxDim\<close> with \<open>maxDim = 0\<close> is Infinity.
\<close>

definition centerAndScale :: "model3d \<Rightarrow> error + model3d" where
  "centerAndScale model =
     (let box = setFromObject model;
          size = getSize box;
          center = getCenter box;
          p1 = vsub (position model) center;
          p2 = p1\<lparr>vy := vy p1 + vy size / 2\<rparr>;
          m1 = model\<lparr>position := p2\<rparr>;
          maxDim = max3 (vx size) (vy size) (vz size)
      in if maxDim > 10 \<or> maxDim < 0.1
         then (if maxDim = 0 then Inl NonFinite
               else Inr (m1\<lparr>scale := setScalar (3 / maxDim)\<rparr>))
         else Inr m1)"

text \<open>
  Lines 221 to 238: the model is added to the scene and becomes the current model, its
  transform is saved, the hologram state is reset and the gizmo is attached.
\<close>

definition installModel :: "model3d \<Rightarrow> viewer \<Rightarrow> viewer" where
  "installModel model s =
     (let u = rootUuid (tree model);
          s1 = emit [SceneAdd u] (s\<lparr>sceneChildren := sceneAdd u (sceneChildren s)\<rparr>);
          s2 = s1\<lparr>currentModel := Some model,
                  modelInitialTransform :=
                    Some \<lparr>tposition = position model, trotation = rotation model,
                          tscale = scale model\<rparr>,
                  hologramActive := False,
                  originalMaterials := Map.empty,
                  holoToggle := map_option (\<lambda>c. False) (holoToggle s1)\<rparr>
      in emit [GizmoAttach u] (s2\<lparr>gizmoObject := Some u\<rparr>))"

text \<open>
  \<open>updateInfoBar\<close>, which ends \<open>setupLoadedModel\<close> and
  \<open>applyEnvironmentTexture\<close>, only rewrites the text of the info bar and is left out.
\<close>

definition setupLoadedModel :: "model3d \<Rightarrow> string \<Rightarrow> viewer \<Rightarrow> error + viewer" where
  "setupLoadedModel model nm s =
     (case removePreviousModel s of
        Inl e \<Rightarrow> Inl e
      | Inr s1 \<Rightarrow>
          (case centerAndScale (nameAndShadows model nm) of
             Inl e \<Rightarrow> Inl e
           | Inr m \<Rightarrow> frameModel m (installModel m s1)))"

subsection \<open>Environment maps\<close>

text \<open>
  Lines 313 to 319: the callback that points every mesh with a material at the new
  texture. \<open>needsUpdate\<close> is a setter on a material and an ordinary property on an
  array.
\<close>

definition useEnvironment :: "ref \<Rightarrow> object3d \<Rightarrow> event list \<Rightarrow> object3d \<times> event list" where
  "useEnvironment texture child t =
     (if isMesh child \<and> material child \<noteq> NoMaterial
      then (child\<lparr>material :=
                    (case setProp ''envMapIntensity'' (JNum 1)
                            (setProp ''envMap'' (JDisposable texture) (material child)) of
                       Multi ms ps \<Rightarrow> Multi ms (AList.update ''needsUpdate'' (JBool True) ps)
                     | slot \<Rightarrow> slot)\<rparr>,
            t @ [SetEnvMap (uuid child) texture])
      else (child, t))"

definition applyEnvironmentTexture :: "ref \<Rightarrow> viewer \<Rightarrow> viewer" where
  "applyEnvironmentTexture texture s =
     (let s1 = emit [SetMapping texture] s;
          s2 = emit [SetEnvironment texture] (s1\<lparr>sceneEnvironment := Some texture\<rparr>);
          s3 = emit [SetBackground texture] (s2\<lparr>sceneBackground := BgTexture texture\<rparr>);
          s4 = s3\<lparr>hdriToggle := map_option (\<lambda>c. True) (hdriToggle s3)\<rparr>;
          s5 = (case currentHDRI s4 of
                  None \<Rightarrow> s4
                | Some old \<Rightarrow> emit [Dispose (Texture old)] s4);
          s6 = s5\<lparr>currentHDRI := Some texture\<rparr>
      in (case currentModel s6 of
            None \<Rightarrow> s6
          | Some m \<Rightarrow>
              (case traverse (useEnvironment texture) (tree m) [] of
                 (tree', t) \<Rightarrow> emit t (s6\<lparr>currentModel := Some (m\<lparr>tree := tree'\<rparr>)\<rparr>))))"

text \<open>
  An asynchronous load ends in one of its two callbacks. Progress callbacks only rewrite
  the text of the loading overlay and are left out. The messages are the source's, without
  the accent of the Spanish texts and without the error object that the console calls
  also print.
\<close>

datatype 'a outcome = Loaded 'a | Failed

definition loadHDRI :: "ref outcome \<Rightarrow> viewer \<Rightarrow> viewer" where
  "loadHDRI result s =
     (let s1 = emit [CreateObjectURL] (showLoading True ''Cargando HDRI...'' s)
      in (case result of
            Loaded texture \<Rightarrow>
              emit [RevokeObjectURL] (showLoading False [] (applyEnvironmentTexture texture s1))
          | Failed \<Rightarrow>
              emit [RevokeObjectURL]
                (emit [Alert ''Error al cargar el archivo HDRI. Revisa la consola para mas detalles.'']
                   (showLoading False [] (emit [ConsoleError ''Error loading HDRI:''] s1)))))"

text \<open>
  The labels of the presets by key. Keys that a JavaScript object inherits from its
  prototype are left out: the keys come from the preset list of the page.
\<close>

definition ENV_PRESETS :: "string \<rightharpoonup> string" where
  "ENV_PRESETS =
     [''studio'' \<mapsto> ''Estudio Profesional'',
      ''sunset'' \<mapsto> ''Atardecer Industrial'',
      ''sky'' \<mapsto> ''Cielo Despejado'',
      ''night'' \<mapsto> ''Noche Estrellada'',
      ''city'' \<mapsto> ''Ciudad Futurista'',
      ''evening'' \<mapsto> ''Camino al Atardecer'']"

definition loadPresetEXR :: "string \<Rightarrow> ref outcome \<Rightarrow> viewer \<Rightarrow> viewer" where
  "loadPresetEXR key result s =
     (case ENV_PRESETS key of
        None \<Rightarrow> s
      | Some label \<Rightarrow>
          (let s1 = showLoading True (''Cargando entorno: '' @ label @ ''...'') s
           in (case result of
                 Loaded texture \<Rightarrow>
                   emit [ConsoleLog (''Environment loaded: '' @ label)]
                     (showLoading False [] (applyEnvironmentTexture texture s1))
               | Failed \<Rightarrow>
                   showLoading False []
                     (emit [ConsoleWarn (''Could not load preset EXR ('' @ label @ ''):'')] s1))))"

subsection \<open>resetModelTransform and the edits it undoes\<close>

definition resetModelTransform :: "viewer \<Rightarrow> viewer" where
  "resetModelTransform s =
     (case currentModel s of
        None \<Rightarrow> s
      | Some m \<Rightarrow>
          (case modelInitialTransform s of
             None \<Rightarrow> s
           | Some t \<Rightarrow>
               s\<lparr>currentModel :=
                   Some (m\<lparr>position := tposition t, rotation := trotation t, scale := tscale t\<rparr>)\<rparr>))"

text \<open>
  The transform of the current model is edited by the transform gizmo on the object it is
  attached to, and by \<open>animate\<close>, which on each frame turns the model about the Y axis
  by \<open>autoRotateSpeed * delta\<close> while \<open>autoRotate\<close> is set and then lets the orbit
  controller take its step.
\<close>

datatype edit = GizmoPosition vec3 | GizmoRotation vec3 | GizmoScale vec3 | Frame real

definition gizmoEdit :: "(model3d \<Rightarrow> model3d) \<Rightarrow> viewer \<Rightarrow> viewer" where
  "gizmoEdit f s =
     (case currentModel s of
        None \<Rightarrow> s
      | Some m \<Rightarrow>
          (if gizmoObject s = Some (rootUuid (tree m))
           then s\<lparr>currentModel := Some (f m)\<rparr> else s))"

definition animate :: "real \<Rightarrow> viewer \<Rightarrow> viewer" where
  "animate delta s =
     orbitUpdate
       (case currentModel s of
          None \<Rightarrow> s
        | Some m \<Rightarrow>
            (if autoRotate s
             then s\<lparr>currentModel :=
                      Some (m\<lparr>rotation := (rotation m)\<lparr>vy := vy (rotation m) + autoRotateSpeed s * delta\<rparr>\<rparr>)\<rparr>
             else s))"

fun applyEdit :: "edit \<Rightarrow> viewer \<Rightarrow> viewer" where
  "applyEdit (GizmoPosition v) s = gizmoEdit (\<lambda>m. m\<lparr>position := v\<rparr>) s"
| "applyEdit (GizmoRotation v) s = gizmoEdit (\<lambda>m. m\<lparr>rotation := v\<rparr>) s"
| "applyEdit (GizmoScale v) s = gizmoEdit (\<lambda>m. m\<lparr>scale := v\<rparr>) s"
| "applyEdit (Frame delta) s = animate delta s"

definition applyEdits :: "edit list \<Rightarrow> viewer \<Rightarrow> viewer" where
  "applyEdits es s = foldl (\<lambda>st e. applyEdit e st) s es"

subsection \<open>The hologram material override\<close>

text \<open>
  \<open>createHologramMaterial()\<close> returns a new shader material on every call; the argument
  is the identity of the new object. None of its own properties has a \<open>dispose\<close>
  function.
\<close>

definition createHologramMaterial :: "ref \<Rightarrow> material" where
  "createHologramMaterial r =
     \<lparr>mref = r,
      props = [(''vertexShader'', JStr ''hologramVertexShader''),
               (''fragmentShader'', JStr ''hologramFragmentShader''),
               (''uniforms'', JPlain),
               (''transparent'', JBool True),
               (''side'', JNum 2),
               (''depthWrite'', JBool False)]\<rparr>"

text \<open>
  Lines 489 to 498: the callback of the enabling branch. Its state is the map
  \<open>originalMaterials\<close> and the counter of new objects.
\<close>

definition holoEnable ::
  "object3d \<Rightarrow> (ident \<rightharpoonup> matslot) \<times> ref \<Rightarrow> object3d \<times> ((ident \<rightharpoonup> matslot) \<times> ref)" where
  "holoEnable child st =
     (case st of (om, r) \<Rightarrow>
        (if isMesh child
         then (let om1 = (if om (uuid child) = None then om(uuid child \<mapsto> material child) else om)
               in (child\<lparr>material := Single (createHologramMaterial r),
                         castShadow := False, receiveShadow := False\<rparr>,
                   (om1, Suc r)))
         else (child, (om, r))))"

text \<open>
  Lines 501 to 509: the callback of the disabling branch, for the map
  \<open>originalMaterials\<close>. Its state is the trace. Only a single material has a
  \<open>dispose\<close> function; an array has none.
\<close>

definition holoDisable ::
  "(ident \<rightharpoonup> matslot) \<Rightarrow> object3d \<Rightarrow> event list \<Rightarrow> object3d \<times> event list" where
  "holoDisable om child t =
     (if isMesh child
      then (case om (uuid child) of
              None \<Rightarrow> (child, t)
            | Some original \<Rightarrow>
                (child\<lparr>material := original, castShadow := True, receiveShadow := True\<rparr>,
                 (case material child of
                    Single m \<Rightarrow> t @ [Dispose (Material (mref m))]
                  | _ \<Rightarrow> t)))
      else (child, t))"

definition toggleHologram :: "bool \<Rightarrow> viewer \<Rightarrow> viewer" where
  "toggleHologram enabled s =
     (case currentModel s of
        None \<Rightarrow> s
      | Some m \<Rightarrow>
          (let s1 = s\<lparr>hologramActive := enabled\<rparr>
           in if enabled
              then (case traverse holoEnable (tree m) (originalMaterials s1, nextRef s1) of
                      (tree', (om, r)) \<Rightarrow>
                        s1\<lparr>currentModel := Some (m\<lparr>tree := tree'\<rparr>),
                           originalMaterials := om, nextRef := r\<rparr>)
              else (case traverse (holoDisable (originalMaterials s1)) (tree m) [] of
                      (tree', t) \<Rightarrow> emit t (s1\<lparr>currentModel := Some (m\<lparr>tree := tree'\<rparr>)\<rparr>))))"

subsection \<open>Sequences of loads\<close>

text \<open>
  A sequence of successful loads: the success callback of the loader calls
  \<open>setupLoadedModel\<close> with the loaded subtree and its name, one load after the other.
\<close>

fun loadModels :: "(model3d \<times> string) list \<Rightarrow> viewer \<Rightarrow> error + viewer" where
  "loadModels [] s = Inr s"
| "loadModels ((model, nm) # rest) s =
     (case setupLoadedModel model nm s of
        Inl e \<Rightarrow> Inl e
      | Inr s1 \<Rightarrow> loadModels rest s1)"

section \<open>Notions used to state the properties\<close>

text \<open>
  A subtree is well formed when no material array has a \<open>null\<close> entry. Missing
  geometry and material fields are well formed.
\<close>

fun wfSlot :: "matslot \<Rightarrow> bool" where
  "wfSlot (Multi ms ps) = list_all (\<lambda>m. m \<noteq> None) ms"
| "wfSlot _ = True"

definition wellFormed :: "node \<Rightarrow> bool" where
  "wellFormed n = list_all (\<lambda>obj. wfSlot (material obj)) (flatten n)"

text \<open>
  The references to disposable resources held in a subtree, one entry per reference: the
  geometry of a node, and for every material of a node the disposable values of its
  properties and the material itself. A resource shared by two holders is listed twice.
\<close>

fun texturesOf :: "(string \<times> jsval) list \<Rightarrow> resource list" where
  "texturesOf [] = []"
| "texturesOf ((key, JDisposable r) # ps) = Texture r # texturesOf ps"
| "texturesOf (p # ps) = texturesOf ps"

definition refsOfMaterial :: "material \<Rightarrow> resource list" where
  "refsOfMaterial m = texturesOf (props m) @ [Material (mref m)]"

fun refsOfSlot :: "matslot \<Rightarrow> resource list" where
  "refsOfSlot NoMaterial = []"
| "refsOfSlot (Single m) = refsOfMaterial m"
| "refsOfSlot (Multi ms ps) = concat (map refsOfMaterial (List.map_filter id ms))"

definition refsOfObject :: "object3d \<Rightarrow> resource list" where
  "refsOfObject obj =
     (case geometry obj of None \<Rightarrow> [] | Some g \<Rightarrow> [Geometry g]) @ refsOfSlot (material obj)"

definition heldResources :: "node \<Rightarrow> resource list" where
  "heldResources n = concat (map refsOfObject (flatten n))"

text \<open>The model subtrees among the children of the scene.\<close>

fun attachedModels :: "sceneChild list \<Rightarrow> ident list" where
  "attachedModels [] = []"
| "attachedModels (ModelObj u # cs) = u # attachedModels cs"
| "attachedModels (Fixture f # cs) = attachedModels cs"

text \<open>The identity of the current model, and the identities of a sequence of loads.\<close>

definition currentId :: "viewer \<Rightarrow> ident option" where
  "currentId s = (case currentModel s of None \<Rightarrow> None | Some m \<Rightarrow> Some (rootUuid (tree m)))"

definition loadedIds :: "(model3d \<times> string) list \<Rightarrow> ident list" where
  "loadedIds ms = map (\<lambda>p. rootUuid (tree (fst p))) ms"

text \<open>
  The events of a trace that attach and detach models: gizmo, scene graph and the calls
  of the disposer.
\<close>

fun isLifecycle :: "event \<Rightarrow> bool" where
  "isLifecycle GizmoDetach = True"
| "isLifecycle (GizmoAttach u) = True"
| "isLifecycle (SceneRemove u) = True"
| "isLifecycle (SceneAdd u) = True"
| "isLifecycle (CallDisposeObject u) = True"
| "isLifecycle _ = False"

definition lifecycle :: "event list \<Rightarrow> event list" where
  "lifecycle t = filter isLifecycle t"

text \<open>
  The lifecycle events expected of loading the models \<open>us\<close> one after the other when
  \<open>prev\<close> is the current model: each load first detaches, removes and disposes the
  model before it, and then adds and attaches its own.
\<close>

fun lifecycleOf :: "ident option \<Rightarrow> ident list \<Rightarrow> event list" where
  "lifecycleOf prev [] = []"
| "lifecycleOf prev (u # us) =
     (case prev of
        None \<Rightarrow> []
      | Some p \<Rightarrow> [GizmoDetach, SceneRemove p, CallDisposeObject p])
     @ [SceneAdd u, GizmoAttach u] @ lifecycleOf (Some u) us"

text \<open>
  What the enabling traversal leaves: every mesh carries a new preview material, numbered
  in the order of the traversal and without shadows, and the map has gained the material
  of every mesh that had no entry.
\<close>

fun previewed :: "ref \<Rightarrow> object3d list \<Rightarrow> object3d list" where
  "previewed r [] = []"
| "previewed r (c # cs) =
     (if isMesh c
      then c\<lparr>material := Single (createHologramMaterial r),
              castShadow := False, receiveShadow := False\<rparr> # previewed (Suc r) cs
      else c # previewed r cs)"

fun snapshot :: "(ident \<rightharpoonup> matslot) \<Rightarrow> object3d list \<Rightarrow> (ident \<rightharpoonup> matslot)" where
  "snapshot om [] = om"
| "snapshot om (c # cs) =
     snapshot (if isMesh c \<and> om (uuid c) = None then om(uuid c \<mapsto> material c) else om) cs"

text \<open>
  What the disabling traversal leaves of one node: a mesh with an entry in the map has the
  recorded material and its shadows back, every other node is as before; and the preview
  materials it disposes.
\<close>

definition restored :: "(ident \<rightharpoonup> matslot) \<Rightarrow> object3d \<Rightarrow> object3d" where
  "restored om c =
     (if isMesh c
      then (case om (uuid c) of
              None \<Rightarrow> c
            | Some original \<Rightarrow> c\<lparr>material := original, castShadow := True, receiveShadow := True\<rparr>)
      else c)"

definition previewDisposals :: "(ident \<rightharpoonup> matslot) \<Rightarrow> object3d \<Rightarrow> event list" where
  "previewDisposals om c =
     (if isMesh c \<and> om (uuid c) \<noteq> None
      then (case material c of Single m \<Rightarrow> [Dispose (Material (mref m))] | _ \<Rightarrow> [])
      else [])"

definition meshesOf :: "model3d \<Rightarrow> object3d list" where
  "meshesOf m = filter isMesh (flatten (tree m))"

text \<open>
  The direction from the look-at target to the camera that \<open>frameModel\<close> writes, and
  the largest dimension at which the distance it writes reaches the controller's
  \<open>minDistance\<close>.
\<close>

definition viewDirection :: vec3 where
  "viewDirection = \<lparr>vx = 0.4, vy = 0.25, vz = 0.9\<rparr>"


text \<open>The orbit controller is at rest when it has no rotation, pan or zoom pending.\<close>

definition atRest :: "viewer \<Rightarrow> bool" where
  "atRest s =
     (orbitDeltaTheta s = 0 \<and> orbitDeltaPhi s = 0 \<and> orbitPanOffset s = vzero \<and>
      orbitScale s = 1)"

subsection \<open>Example inputs\<close>

text \<open>
  A mesh whose material uses one texture for two of its maps, as a glTF
  metallic-roughness texture is used.
\<close>

definition sharedTextureMesh :: node where
  "sharedTextureMesh =
     Node \<lparr>uuid = 1, isMesh = True, geometry = Some 3,
           material = Single \<lparr>mref = 7,
                               props = [(''metalnessMap'', JDisposable 5),
                                        (''roughnessMap'', JDisposable 5),
                                        (''wireframe'', JBool False)]\<rparr>,
           castShadow = False, receiveShadow = False\<rparr> []"

text \<open>
  A group without geometry and material over a mesh with one material, a mesh with an
  array of two materials and a mesh without geometry and material.
\<close>

definition smallScene :: node where
  "smallScene =
     Node \<lparr>uuid = 10, isMesh = False, geometry = None, material = NoMaterial,
           castShadow = False, receiveShadow = False\<rparr>
       [Node \<lparr>uuid = 11, isMesh = True, geometry = Some 20,
              material = Single \<lparr>mref = 30, props = [(''map'', JDisposable 40), (''envMap'', JNull)]\<rparr>,
              castShadow = False, receiveShadow = False\<rparr> [],
        Node \<lparr>uuid = 12, isMesh = True, geometry = Some 21,
              material = Multi [Some \<lparr>mref = 31, props = [(''map'', JDisposable 41)]\<rparr>,
                                Some \<lparr>mref = 32, props = [(''opacity'', JNum 1)]\<rparr>] [],
              castShadow = False, receiveShadow = False\<rparr> [],
        Node \<lparr>uuid = 13, isMesh = True, geometry = None, material = NoMaterial,
              castShadow = False, receiveShadow = False\<rparr> []]"

text \<open>
  A model under the identity transform whose bounding box is [(-1,-1,-1), (3,5,2)], and
  one whose bounding box is the single point (2,1,0).
\<close>

definition plainMesh :: "ident \<Rightarrow> node" where
  "plainMesh u =
     Node \<lparr>uuid = u, isMesh = True, geometry = Some (u + 100),
           material = Single \<lparr>mref = u + 200, props = [(''envMap'', JNull)]\<rparr>,
           castShadow = False, receiveShadow = False\<rparr> []"

definition scenarioObject :: model3d where
  "scenarioObject =
     \<lparr>tree = plainMesh 1, name = ''box'', position = vzero, rotation = vzero,
      scale = setScalar 1,
      corners = [\<lparr>vx = -1, vy = -1, vz = -1\<rparr>, \<lparr>vx = 3, vy = 5, vz = 2\<rparr>]\<rparr>"

definition pointObject :: model3d where
  "pointObject =
     \<lparr>tree = plainMesh 2, name = ''point'', position = vzero, rotation = vzero,
      scale = setScalar 1,
      corners = [\<lparr>vx = 2, vy = 1, vz = 0\<rparr>]\<rparr>"

text \<open>
  A model under the identity transform whose geometry lies away from its origin, with
  bounding box [(100,0,0), (120,1,1)].
\<close>

definition offCentreModel :: model3d where
  "offCentreModel =
     \<lparr>tree = plainMesh 3, name = ''beam'', position = vzero, rotation = vzero,
      scale = setScalar 1,
      corners = [\<lparr>vx = 100, vy = 0, vz = 0\<rparr>, \<lparr>vx = 120, vy = 1, vz = 1\<rparr>]\<rparr>"

text \<open>The viewer after the first model has been loaded into the initial state.\<close>

definition loadedViewer :: viewer where
  "loadedViewer =
     (case setupLoadedModel scenarioObject ''box'' (initViewer False False) of
        Inr s \<Rightarrow> s
      | Inl e \<Rightarrow> initViewer False False)"

text \<open>A box is ordered when its minimum is below its maximum in every coordinate.\<close>

definition ordered :: "box3 \<Rightarrow> bool" where
  "ordered b = (case b of None \<Rightarrow> True
     | Some (lo, hi) \<Rightarrow> vx lo \<le> vx hi \<and> vy lo \<le> vy hi \<and> vz lo \<le> vz hi)"

section \<open>Properties\<close>

subsection \<open>Traversal\<close>

lemma visit_append:
  "visit cb (xs @ ys) s =
     (case visit cb xs s of (xs', s1) \<Rightarrow>
        (case visit cb ys s1 of (ys', s2) \<Rightarrow> (xs' @ ys', s2)))"
  by (induction xs arbitrary: s) (auto split: prod.splits)

lemma traverse_visit:
  "traverse cb n s = (n', s') \<Longrightarrow> visit cb (flatten n) s = (flatten n', s')"
  "traverse_list cb ns s = (ns', s') \<Longrightarrow> visit cb (flatten_list ns) s = (flatten_list ns', s')"
proof (induction cb n s and cb ns s arbitrary: n' s' and ns' s' rule: traverse_traverse_list.induct)
  case (1 cb obj cs s)
  then show ?case by (auto split: prod.splits)
next
  case (2 cb s)
  then show ?case by simp
next
  case (3 cb c cs s)
  then show ?case by (auto simp: visit_append split: prod.splits)
qed

lemma snd_traverse: "snd (traverse cb n s) = snd (visit cb (flatten n) s)"
  using traverse_visit(1) [of cb n s] by (cases "traverse cb n s") simp

lemma flatten_traverse: "flatten (fst (traverse cb n s)) = fst (visit cb (flatten n) s)"
  using traverse_visit(1) [of cb n s] by (cases "traverse cb n s") simp

subsection \<open>The resource disposer\<close>

lemma disposeValues_textures:
  "concat (map (\<lambda>(key, value). disposeValue value) ps) = map Dispose (texturesOf ps)"
  by (induction ps rule: texturesOf.induct) auto

lemma disposeMaterial_Some: "disposeMaterial (Some m) = Inr (map Dispose (refsOfMaterial m))"
  by (simp add: refsOfMaterial_def disposeValues_textures)

lemma disposeMaterials_wf:
  "list_all (\<lambda>m. m \<noteq> None) ms \<Longrightarrow>
   disposeMaterials ms = Inr (map Dispose (concat (map refsOfMaterial (List.map_filter id ms))))"
proof (induction ms)
  case Nil
  show ?case by (simp add: List.map_filter_simps)
next
  case (Cons m ms)
  then obtain m' where "m = Some m'" by auto
  with Cons show ?case
    by (simp add: List.map_filter_simps disposeMaterial_Some del: disposeMaterial.simps)
qed

lemma disposeSlot_wf: "wfSlot slot \<Longrightarrow> disposeSlot slot = Inr (map Dispose (refsOfSlot slot))"
  by (cases slot) (simp_all add: disposeMaterial_Some disposeMaterials_wf del: disposeMaterial.simps)

lemma disposeChild_wf:
  "wfSlot (material child) \<Longrightarrow>
   disposeChild child (Inr t) = (child, Inr (t @ map Dispose (refsOfObject child)))"
  by (simp add: disposeChild_def disposeSlot_wf refsOfObject_def split: option.splits)

lemma visit_disposeChild_wf:
  "list_all (\<lambda>obj. wfSlot (material obj)) objs \<Longrightarrow>
   visit disposeChild objs (Inr t) = (objs, Inr (t @ map Dispose (concat (map refsOfObject objs))))"
  by (induction objs arbitrary: t) (simp_all add: disposeChild_wf)

lemma disposeObject_wf:
  "wellFormed n \<Longrightarrow>
   disposeObject n = Inr (CallDisposeObject (rootUuid n) # map Dispose (heldResources n))"
  by (simp add: disposeObject_def snd_traverse wellFormed_def visit_disposeChild_wf heldResources_def)

lemma count_list_distinct: "distinct xs \<Longrightarrow> x \<in> set xs \<Longrightarrow> count_list xs x = 1"
  by (induction xs) auto

text \<open>
  C8, as stated, fails: the disposer makes one dispose call per reference, so a texture
  that a material holds under two of its keys is disposed twice.
\<close>

theorem disposeObject_shared_twice:
  "disposeObject sharedTextureMesh =
     Inr [CallDisposeObject 1, Dispose (Geometry 3), Dispose (Texture 5), Dispose (Texture 5),
          Dispose (Material 7)]"
  by (simp add: disposeObject_def sharedTextureMesh_def rootUuid_def disposeChild_def)

text \<open>
  C8, amended: on a well-formed subtree the disposer does not fail, and it calls dispose on
  every resource as many times as the subtree holds a reference to it; so every resource
  held is released, nodes without geometry and material add no call, and every resource
  is released exactly once when no resource is held twice.
\<close>

theorem disposeObject_releases:
  assumes "wellFormed n"
  shows "\<exists>t. disposeObject n = Inr t \<and>
           (\<forall>r. count_list t (Dispose r) = count_list (heldResources n) r) \<and>
           (distinct (heldResources n) \<longrightarrow>
              (\<forall>r \<in> set (heldResources n). count_list t (Dispose r) = 1))"
proof -
  have inj: "inj Dispose" by (simp add: inj_on_def)
  have c: "count_list (CallDisposeObject (rootUuid n) # map Dispose (heldResources n)) (Dispose r)
        = count_list (heldResources n) r" for r
    by (simp add: count_list_map_conv [OF inj])
  show ?thesis
    using disposeObject_wf [OF assms] c
    by (auto simp: count_list_distinct)
qed

theorem disposeObject_releases_witness:
  "wellFormed smallScene \<and> distinct (heldResources smallScene) \<and>
   Texture 41 \<in> set (heldResources smallScene) \<and>
   (\<exists>t. disposeObject smallScene = Inr t \<and> count_list t (Dispose (Texture 41)) = 1)"
proof -
  have wf: "wellFormed smallScene"
    by (simp add: wellFormed_def smallScene_def)
  have held: "heldResources smallScene =
      [Geometry 20, Texture 40, Material 30, Geometry 21, Texture 41, Material 31, Material 32]"
    by (simp add: heldResources_def smallScene_def refsOfObject_def refsOfMaterial_def
        List.map_filter_simps)
  have d: "distinct (heldResources smallScene)"
    by (simp add: held)
  have m: "Texture 41 \<in> set (heldResources smallScene)"
    by (simp add: held)
  from disposeObject_releases [OF wf] d m
  have "\<exists>t. disposeObject smallScene = Inr t \<and> count_list t (Dispose (Texture 41)) = 1"
    by blast
  with wf d m show ?thesis by blast
qed

subsection \<open>The orbit controller\<close>





lemma vadd_vsub: "vadd t (vsub c t) = c"
  by (cases c) (simp add: vsub_def vadd_def)

text \<open>
  The spherical coordinates of a vector in front of the X and Z axes, off the poles, give
  the vector back.
\<close>

lemma spherical_roundtrip:
  assumes x: "0 < vx v" and z: "0 < vz v"
    and lo: "EPS \<le> arccos (vy v / vlength v)" and hi: "arccos (vy v / vlength v) \<le> pi - EPS"
  shows "setFromVector3 v =
           \<lparr>radius = vlength v, phi = arccos (vy v / vlength v), theta = arctan (vx v / vz v)\<rparr>"
    and "setFromSpherical
           \<lparr>radius = vlength v, phi = arccos (vy v / vlength v), theta = arctan (vx v / vz v)\<rparr> = v"
proof -
  let ?r = "vlength v"
  let ?h = "sqrt (vx v * vx v + vz v * vz v)"
  have hpos: "0 < ?h" using x z by (simp add: add_pos_pos)
  have rpos: "0 < ?r" unfolding vlength_def
    by (rule real_sqrt_gt_zero) (use x z in \<open>simp add: add_pos_pos add_pos_nonneg\<close>)
  have r2: "?r\<^sup>2 = vx v * vx v + vy v * vy v + vz v * vz v"
    unfolding vlength_def by (simp add: add_nonneg_nonneg)
  have "\<bar>vy v\<bar> \<le> ?r"
  proof -
    have "(vy v)\<^sup>2 \<le> ?r\<^sup>2" unfolding r2 by (simp add: power2_eq_square)
    then show ?thesis using rpos by (simp add: abs_le_square_iff [symmetric])
  qed
  then have u: "- 1 \<le> vy v / ?r" "vy v / ?r \<le> 1"
    using rpos by (simp_all add: field_simps abs_le_iff)
  have cl: "clamp (vy v / ?r) (- 1) 1 = vy v / ?r"
    using u by (simp add: clamp_def)
  show "setFromVector3 v =
           \<lparr>radius = ?r, phi = arccos (vy v / ?r), theta = arctan (vx v / vz v)\<rparr>"
    using rpos z by (simp add: setFromVector3_def Let_def cl atan2_def)
  have cosphi: "cos (arccos (vy v / ?r)) * ?r = vy v"
    using u rpos by simp
  have sinphi: "sin (arccos (vy v / ?r)) * ?r = ?h"
  proof -
    have "sin (arccos (vy v / ?r)) = sqrt (1 - (vy v / ?r)\<^sup>2)"
      using u by (simp add: sin_arccos)
    also have "1 - (vy v / ?r)\<^sup>2 = (?h / ?r)\<^sup>2"
    proof -
      have h2: "?h\<^sup>2 = vx v * vx v + vz v * vz v" by (simp add: add_nonneg_nonneg)
      have "?h\<^sup>2 = ?r\<^sup>2 - (vy v)\<^sup>2" unfolding h2 r2 by (simp add: power2_eq_square)
      then show ?thesis using rpos by (simp add: power_divide field_simps)
    qed
    also have "sqrt ((?h / ?r)\<^sup>2) = ?h / ?r"
      using hpos rpos by simp
    finally show ?thesis using rpos by simp
  qed
  let ?t = "vx v / vz v"
  have s1: "sqrt (1 + ?t\<^sup>2) = ?h / vz v"
  proof -
    have "1 + ?t\<^sup>2 = (?h / vz v)\<^sup>2"
      using z by (simp add: power_divide field_simps add_nonneg_nonneg power2_eq_square)
    then show ?thesis using hpos z by simp
  qed
  have sint: "?h * sin (arctan ?t) = vx v"
    using hpos z by (simp add: sin_arctan s1)
  have cost: "?h * cos (arctan ?t) = vz v"
    using hpos z by (simp add: cos_arctan s1)
  show "setFromSpherical
           \<lparr>radius = ?r, phi = arccos (vy v / ?r), theta = arctan (vx v / vz v)\<rparr> = v"
    by (cases v) (use cosphi sinphi sint cost in \<open>simp add: setFromSpherical_def Let_def\<close>)
qed

lemma orbitUpdate_fields:
  "currentModel (orbitUpdate s) = currentModel s"
  "modelInitialTransform (orbitUpdate s) = modelInitialTransform s"
  "hologramActive (orbitUpdate s) = hologramActive s"
  "originalMaterials (orbitUpdate s) = originalMaterials s"
  "gizmoObject (orbitUpdate s) = gizmoObject s"
  "sceneChildren (orbitUpdate s) = sceneChildren s"
  "trace (orbitUpdate s) = trace s @ [OrbitUpdate]"
  "cameraFov (orbitUpdate s) = cameraFov s"
  "nextRef (orbitUpdate s) = nextRef s"
  "currentHDRI (orbitUpdate s) = currentHDRI s"
  "sceneEnvironment (orbitUpdate s) = sceneEnvironment s"
  "sceneBackground (orbitUpdate s) = sceneBackground s"
  "hdriToggle (orbitUpdate s) = hdriToggle s"
  "orbitMinDistance (orbitUpdate s) = orbitMinDistance s"
  "orbitMaxDistance (orbitUpdate s) = orbitMaxDistance s"
  by (simp_all add: orbitUpdate_def Let_def emit_def)


lemma clampDistance_ge: "orbitMinDistance s \<le> clampDistance s d"
  by (simp add: clampDistance_def)

text \<open>
  A step of the controller at rest leaves the camera and the target where they are, when
  the offset of the camera lies in front of the X and Z axes, off the poles and within the
  distance limits.
\<close>

lemma orbitUpdate_atRest:
  assumes rest: "atRest s"
    and x: "0 < vx (vsub (cameraPosition s) (orbitTarget s))"
    and z: "0 < vz (vsub (cameraPosition s) (orbitTarget s))"
    and lo: "EPS \<le> arccos (vy (vsub (cameraPosition s) (orbitTarget s))
                      / vlength (vsub (cameraPosition s) (orbitTarget s)))"
    and hi: "arccos (vy (vsub (cameraPosition s) (orbitTarget s))
                      / vlength (vsub (cameraPosition s) (orbitTarget s))) \<le> pi - EPS"
    and dmin: "orbitMinDistance s \<le> vlength (vsub (cameraPosition s) (orbitTarget s))"
    and dmax: "vlength (vsub (cameraPosition s) (orbitTarget s)) \<le> orbitMaxDistance s"
  shows "orbitUpdate s = s\<lparr>trace := trace s @ [OrbitUpdate]\<rparr>"
proof -
  let ?o = "vsub (cameraPosition s) (orbitTarget s)"
  let ?sp = "\<lparr>radius = vlength ?o, phi = arccos (vy ?o / vlength ?o), theta = arctan (vx ?o / vz ?o)\<rparr>"
  note rt = spherical_roundtrip [OF x z lo hi]
  have e: "0 < EPS" by (simp add: EPS_def)
  have safe: "makeSafe \<lparr>radius = vlength ?o,
                       phi = max 0 (min pi (arccos (vy ?o / vlength ?o))),
                       theta = arctan (vx ?o / vz ?o)\<rparr> = ?sp"
    using lo hi e by (simp add: makeSafe_def clamp_def)
  have cd: "clampDistance s (vlength ?o) = vlength ?o"
    using dmin dmax by (simp add: clampDistance_def)
  have z0: "vscale k vzero = vzero" for k
    by (simp add: vscale_def vzero_def)
  have t0: "vadd t vzero = t" for t
    by (cases t) (simp add: vadd_def vzero_def)
  from rest have r: "orbitDeltaTheta s = 0" "orbitDeltaPhi s = 0" "orbitPanOffset s = vzero"
    "orbitScale s = 1"
    by (simp_all add: atRest_def)
  show ?thesis
    unfolding orbitUpdate_def Let_def rt(1)
    by (simp add: r safe cd rt(2) z0 t0 vadd_vsub emit_def)
qed

subsection \<open>The bounding-box framer\<close>

lemma tan_pi_8: "tan (pi / 8) = sqrt 2 - 1"
proof -
  let ?t = "tan (pi / 8 :: real)"
  have pos: "0 < ?t" by (rule tan_gt_zero) simp_all
  have c1: "cos (pi / 8 :: real) \<noteq> 0"
    using cos_gt_zero_pi [of "pi / 8"] by simp
  have c2: "cos (2 * (pi / 8) :: real) \<noteq> 0"
    using cos_gt_zero_pi [of "2 * (pi / 8)"] by simp
  have "tan (2 * (pi / 8)) = 2 * ?t / (1 - ?t\<^sup>2)"
    by (rule tan_double [OF c1 c2])
  moreover have "tan (2 * (pi / 8) :: real) = 1"
    using tan_45 by simp
  ultimately have e: "2 * ?t / (1 - ?t\<^sup>2) = 1" by simp
  then have ne: "1 - ?t\<^sup>2 \<noteq> 0" by auto
  from e ne have "2 * ?t = 1 - ?t\<^sup>2" by (simp add: field_simps)
  then have "(?t + 1)\<^sup>2 = 2" by (simp add: power2_eq_square algebra_simps)
  then have "sqrt ((?t + 1)\<^sup>2) = sqrt 2" by simp
  with pos show ?thesis by simp
qed

lemma sqrt2_bounds: "1.41421 < sqrt 2" "sqrt 2 < 1.41422"
proof -
  show "1.41421 < sqrt 2"
    by (rule real_less_rsqrt) (simp add: power2_eq_square)
  show "sqrt 2 < 1.41422"
    by (rule real_less_lsqrt) (simp_all add: power2_eq_square)
qed

lemma cameraDistance_45: "cameraDistance 45 d = \<bar>d\<bar> * (sqrt 2 + 1) * 0.6"
proof -
  have "(sqrt 2 - 1) * (sqrt 2 + 1) = 1" by (simp add: algebra_simps)
  then have inv: "1 / (sqrt 2 - 1) = sqrt 2 + 1"
    by (simp add: field_simps)
  have pos: "0 < sqrt 2 - 1" by simp
  have "cameraDistance 45 d = \<bar>d / (2 * (sqrt 2 - 1))\<bar> * 1.2"
    by (simp add: cameraDistance_def tan_pi_8)
  also have "\<dots> = \<bar>d\<bar> * (1 / (sqrt 2 - 1)) * 0.6"
    using pos by (simp add: abs_mult abs_divide field_simps)
  finally show ?thesis by (simp add: inv)
qed



lemma ordered_expand: "ordered b \<Longrightarrow> ordered (expandByPoint b p)"
  by (cases b) (auto simp: ordered_def vmin_def vmax_def)

lemma ordered_foldl: "ordered b \<Longrightarrow> ordered (foldl expandByPoint b ps)"
  by (induction ps arbitrary: b) (simp_all add: ordered_expand)

lemma ordered_setFromPoints: "ordered (setFromPoints ps)"
  unfolding setFromPoints_def by (rule ordered_foldl) (simp add: ordered_def)

lemma maxDimOf_nonneg: "0 \<le> maxDimOf (setFromObject obj)"
  using ordered_setFromPoints [of "map (toWorld obj) (corners obj)"]
  by (cases "setFromObject obj")
     (auto simp: maxDimOf_def max3_def setFromObject_def ordered_def vsub_def vzero_def)

lemma tan_half_fov_pos:
  assumes "0 < fov" "fov < 180"
  shows "0 < tan (fov * (pi / 180) / 2)"
proof (rule tan_gt_zero)
  show "0 < fov * (pi / 180) / 2" using assms by simp
  have "fov * (pi / 180) / 2 < 180 * (pi / 180) / 2"
    using assms by (simp add: field_simps)
  then show "fov * (pi / 180) / 2 < pi / 2" by simp
qed

lemma cameraDistance_pos:
  assumes "0 < fov" "fov < 180" "0 < d"
  shows "0 < cameraDistance fov d"
  using tan_half_fov_pos [OF assms(1,2)] assms(3)
  by (simp add: cameraDistance_def)

lemma cameraDistance_zero: "cameraDistance fov 0 = 0"
  by (simp add: cameraDistance_def)

lemma cameraDistance_no_abs:
  assumes "0 < fov" "fov < 180" "0 \<le> d"
  shows "cameraDistance fov d = d / (2 * tan (fov * (pi / 180) / 2)) * 1.2"
  using tan_half_fov_pos [OF assms(1,2)] assms(3)
  by (simp add: cameraDistance_def abs_if field_simps)

lemma frameWrites_ok:
  assumes "0 < cameraFov s" "cameraFov s < 180"
  shows "frameWrites obj s =
     Inr (s\<lparr>cameraPosition :=
            \<lparr>vx = vx (getCenter (setFromObject obj))
                   + cameraDistance (cameraFov s) (maxDimOf (setFromObject obj)) * 0.4,
             vy = vy (getCenter (setFromObject obj))
                   + cameraDistance (cameraFov s) (maxDimOf (setFromObject obj)) * 0.25,
             vz = vz (getCenter (setFromObject obj))
                   + cameraDistance (cameraFov s) (maxDimOf (setFromObject obj)) * 0.9\<rparr>,
           orbitTarget := getCenter (setFromObject obj)\<rparr>)"
  using tan_half_fov_pos [OF assms]
  by (simp add: frameWrites_def Let_def)

lemma frameWrites_Inr:
  assumes "frameWrites obj s = Inr s1"
  shows "s1 = s\<lparr>cameraPosition := cameraPosition s1, orbitTarget := orbitTarget s1\<rparr>"
    and "vsub (cameraPosition s1) (orbitTarget s1) =
           vscale (cameraDistance (cameraFov s) (maxDimOf (setFromObject obj))) viewDirection"
  using assms
  by (auto simp: frameWrites_def Let_def vsub_def vscale_def viewDirection_def split: if_splits)

lemma frameModel_ok:
  assumes "0 < cameraFov s" "cameraFov s < 180"
  shows "\<exists>s1. frameWrites obj s = Inr s1 \<and> frameModel obj s = Inr (orbitUpdate s1)"
  using frameWrites_ok [OF assms, of obj] by (simp add: frameModel_def)

lemma toWorld_identity:
  "position m = vzero \<Longrightarrow> rotation m = vzero \<Longrightarrow> scale m = setScalar 1 \<Longrightarrow> toWorld m v = v"
  by (simp add: toWorld_def applyEuler_def vmul_def setScalar_def vadd_def vzero_def)

lemma box_scenarioObject:
  "setFromObject scenarioObject = Some (\<lparr>vx = -1, vy = -1, vz = -1\<rparr>, \<lparr>vx = 3, vy = 5, vz = 2\<rparr>)"
proof -
  have w: "toWorld scenarioObject v = v" for v
    by (rule toWorld_identity) (simp_all add: scenarioObject_def)
  have c: "corners scenarioObject = [\<lparr>vx = -1, vy = -1, vz = -1\<rparr>, \<lparr>vx = 3, vy = 5, vz = 2\<rparr>]"
    by (simp add: scenarioObject_def)
  show ?thesis
    unfolding setFromObject_def c
    by (simp add: w setFromPoints_def vmin_def vmax_def)
qed

lemma box_pointObject:
  "setFromObject pointObject = Some (\<lparr>vx = 2, vy = 1, vz = 0\<rparr>, \<lparr>vx = 2, vy = 1, vz = 0\<rparr>)"
proof -
  have w: "toWorld pointObject v = v" for v
    by (rule toWorld_identity) (simp_all add: pointObject_def)
  have c: "corners pointObject = [\<lparr>vx = 2, vy = 1, vz = 0\<rparr>]"
    by (simp add: pointObject_def)
  show ?thesis
    unfolding setFromObject_def c
    by (simp add: w setFromPoints_def)
qed

lemma fov_init: "cameraFov (initViewer a b) = 45"
  by (simp add: initViewer_def)

lemma vlength_viewDirection: "vlength viewDirection = sqrt 1.0325"
  by (simp add: vlength_def viewDirection_def)

lemma viewLength_ge1: "1 \<le> vlength viewDirection"
  unfolding vlength_viewDirection by simp

lemma vlength_vscale: "vlength (vscale d v) = \<bar>d\<bar> * vlength v"
proof -
  have "(d * vx v) * (d * vx v) + (d * vy v) * (d * vy v) + (d * vz v) * (d * vz v) =
        d\<^sup>2 * (vx v * vx v + vy v * vy v + vz v * vz v)"
    by (simp add: power2_eq_square algebra_simps)
  then show ?thesis
    by (simp add: vlength_def vscale_def real_sqrt_mult)
qed



text \<open>The direction that the framer writes is off the poles of the controller.\<close>

lemma viewDirection_polar:
  assumes "0 < d"
  shows "EPS \<le> arccos (vy (vscale d viewDirection) / vlength (vscale d viewDirection))"
    and "arccos (vy (vscale d viewDirection) / vlength (vscale d viewDirection)) \<le> pi - EPS"
proof -
  let ?L = "vlength viewDirection"
  have L: "1 \<le> ?L" by (rule viewLength_ge1)
  have q: "vy (vscale d viewDirection) / vlength (vscale d viewDirection) = (1 / 4) / ?L"
    using assms L by (simp add: vlength_vscale) (simp add: vscale_def viewDirection_def)
  have u0: "0 \<le> (1 / 4) / ?L" using L by simp
  have u1: "(1 / 4) / ?L \<le> 1 / 2" using L by (simp add: field_simps)
  have e: "EPS \<le> 1 / 2" by (simp add: EPS_def)
  have "pi / 3 \<le> arccos ((1 / 4) / ?L)"
    using arccos_le_arccos [of "(1 / 4) / ?L" "1 / 2"] u0 u1 by simp
  moreover have "EPS \<le> pi / 3" using e pi_ge_two by simp
  ultimately show "EPS \<le> arccos (vy (vscale d viewDirection) / vlength (vscale d viewDirection))"
    unfolding q by simp
  have "arccos ((1 / 4) / ?L) \<le> pi / 2"
    using arccos_le_pi2 [of "(1 / 4) / ?L"] u0 u1 by simp
  moreover have "pi / 2 \<le> pi - EPS" using e pi_ge_two by simp
  ultimately show "arccos (vy (vscale d viewDirection) / vlength (vscale d viewDirection)) \<le> pi - EPS"
    unfolding q by simp
qed

text \<open>
  With the controller at rest and the written distance within its limits, the step of the
  controller leaves what the framer wrote.
\<close>

lemma frameModel_atRest:
  assumes fov: "0 < cameraFov s" "cameraFov s < 180"
    and rest: "atRest s"
    and dim: "0 < maxDimOf (setFromObject obj)"
    and dmin: "orbitMinDistance s \<le>
                 cameraDistance (cameraFov s) (maxDimOf (setFromObject obj)) * vlength viewDirection"
    and dmax: "cameraDistance (cameraFov s) (maxDimOf (setFromObject obj)) * vlength viewDirection
                 \<le> orbitMaxDistance s"
  shows "frameModel obj s =
     Inr (s\<lparr>cameraPosition :=
            \<lparr>vx = vx (getCenter (setFromObject obj))
                   + cameraDistance (cameraFov s) (maxDimOf (setFromObject obj)) * 0.4,
             vy = vy (getCenter (setFromObject obj))
                   + cameraDistance (cameraFov s) (maxDimOf (setFromObject obj)) * 0.25,
             vz = vz (getCenter (setFromObject obj))
                   + cameraDistance (cameraFov s) (maxDimOf (setFromObject obj)) * 0.9\<rparr>,
           orbitTarget := getCenter (setFromObject obj),
           trace := trace s @ [OrbitUpdate]\<rparr>)"
proof -
  let ?d = "cameraDistance (cameraFov s) (maxDimOf (setFromObject obj))"
  let ?c = "getCenter (setFromObject obj)"
  let ?s1 = "s\<lparr>cameraPosition :=
            \<lparr>vx = vx ?c + ?d * 0.4, vy = vy ?c + ?d * 0.25, vz = vz ?c + ?d * 0.9\<rparr>,
           orbitTarget := ?c\<rparr>"
  have w: "frameWrites obj s = Inr ?s1"
    by (rule frameWrites_ok [OF fov])
  have d: "0 < ?d" by (rule cameraDistance_pos [OF fov dim])
  have o: "vsub (cameraPosition ?s1) (orbitTarget ?s1) = vscale ?d viewDirection"
    using frameWrites_Inr(2) [OF w] by simp
  have len: "vlength (vscale ?d viewDirection) = ?d * vlength viewDirection"
    using d by (simp add: vlength_vscale)
  have r1: "atRest ?s1" using rest by (simp add: atRest_def)
  have "orbitUpdate ?s1 = ?s1\<lparr>trace := trace ?s1 @ [OrbitUpdate]\<rparr>"
  proof (rule orbitUpdate_atRest [OF r1])
    show "0 < vx (vsub (cameraPosition ?s1) (orbitTarget ?s1))"
      unfolding o using d by (simp add: vscale_def viewDirection_def)
    show "0 < vz (vsub (cameraPosition ?s1) (orbitTarget ?s1))"
      unfolding o using d by (simp add: vscale_def viewDirection_def)
    show "EPS \<le> arccos (vy (vsub (cameraPosition ?s1) (orbitTarget ?s1))
                      / vlength (vsub (cameraPosition ?s1) (orbitTarget ?s1)))"
      unfolding o by (rule viewDirection_polar(1) [OF d])
    show "arccos (vy (vsub (cameraPosition ?s1) (orbitTarget ?s1))
                      / vlength (vsub (cameraPosition ?s1) (orbitTarget ?s1))) \<le> pi - EPS"
      unfolding o by (rule viewDirection_polar(2) [OF d])
    show "orbitMinDistance ?s1 \<le> vlength (vsub (cameraPosition ?s1) (orbitTarget ?s1))"
      unfolding o len using dmin by simp
    show "vlength (vsub (cameraPosition ?s1) (orbitTarget ?s1)) \<le> orbitMaxDistance ?s1"
      unfolding o len using dmax by simp
  qed
  then show ?thesis
    by (simp add: frameModel_def w)
qed





lemma initViewer_orbit:
  "orbitMinDistance (initViewer a b) = 0.1" "orbitMaxDistance (initViewer a b) = 100"
  "orbitScale (initViewer a b) = 1" "atRest (initViewer a b)" "trace (initViewer a b) = []"
  by (simp_all add: initViewer_def atRest_def)

text \<open>
  For the model whose bounding box is a single point the framer itself writes the target
  as camera position; the step of the controller then puts the camera at its minimum
  distance.
\<close>

lemma frameWrites_zero_size:
  "frameWrites pointObject (initViewer False False) =
     Inr ((initViewer False False)
            \<lparr>cameraPosition := \<lparr>vx = 2, vy = 1, vz = 0\<rparr>,
             orbitTarget := \<lparr>vx = 2, vy = 1, vz = 0\<rparr>\<rparr>)"
proof -
  have f: "0 < cameraFov (initViewer False False)" "cameraFov (initViewer False False) < 180"
    by (simp_all add: fov_init)
  have m: "maxDimOf (Some (\<lparr>vx = 2, vy = 1, vz = 0\<rparr>, \<lparr>vx = 2, vy = 1, vz = 0\<rparr>)) = 0"
    by (simp add: maxDimOf_def max3_def vsub_def)
  show ?thesis
    by (simp add: frameWrites_ok [OF f] box_pointObject m cameraDistance_zero)
qed


text \<open>
  C7: for a field of view strictly between 0 and 180 degrees and an object with bounding
  box \<open>(lo, hi)\<close>, the framer sets the camera distance to
  \<open>maxDim / (2 tan (fov / 2)) * 1.2\<close>, the camera position to
  \<open>center + distance * (0.4, 0.25, 0.9)\<close> and the look-at target to the centre, and then
  lets the orbit controller take its step; with the controller at rest and that distance
  within the controller's limits, the step leaves both as written, and nothing else
  changes but the trace. For the box [(-1,-1,-1), (3,5,2)] and 45 degrees the distance is
  within 0.01 of 8.70 and the camera ends within 0.01 of (1 + 3.48, 2 + 2.175, 0.5 + 7.83).
\<close>

theorem frameModel_formula:
  "(0 < cameraFov s \<and> cameraFov s < 180 \<and> setFromObject obj = Some (lo, hi) \<longrightarrow>
      (let size = vsub hi lo;
           center = \<lparr>vx = (vx lo + vx hi) / 2, vy = (vy lo + vy hi) / 2, vz = (vz lo + vz hi) / 2\<rparr>;
           maxDim = max (vx size) (max (vy size) (vz size));
           distance = maxDim / (2 * tan (cameraFov s * (pi / 180) / 2)) * 1.2;
           written = s\<lparr>cameraPosition :=
                          \<lparr>vx = vx center + distance * 0.4,
                           vy = vy center + distance * 0.25,
                           vz = vz center + distance * 0.9\<rparr>,
                        orbitTarget := center\<rparr>
       in frameWrites obj s = Inr written \<and>
          frameModel obj s = Inr (orbitUpdate written) \<and>
          (atRest s \<and> 0 < maxDim \<and>
           orbitMinDistance s \<le> distance * vlength viewDirection \<and>
           distance * vlength viewDirection \<le> orbitMaxDistance s \<longrightarrow>
             frameModel obj s = Inr (written\<lparr>trace := trace s @ [OrbitUpdate]\<rparr>)))) \<and>
   setFromObject scenarioObject = Some (\<lparr>vx = -1, vy = -1, vz = -1\<rparr>, \<lparr>vx = 3, vy = 5, vz = 2\<rparr>) \<and>
   cameraFov (initViewer a b) = 45 \<and>
   \<bar>cameraDistance 45 6 - 8.70\<bar> < 0.01 \<and>
   (case frameModel scenarioObject (initViewer a b) of
      Inl e \<Rightarrow> False
    | Inr s' \<Rightarrow>
        orbitTarget s' = \<lparr>vx = 1, vy = 2, vz = 0.5\<rparr> \<and>
        \<bar>vx (cameraPosition s') - (1 + 3.48)\<bar> < 0.01 \<and>
        \<bar>vy (cameraPosition s') - (2 + 2.175)\<bar> < 0.01 \<and>
        \<bar>vz (cameraPosition s') - (0.5 + 7.83)\<bar> < 0.01)"
proof -
  have general: "frameWrites obj s = Inr written \<and>
          frameModel obj s = Inr (orbitUpdate written) \<and>
          (atRest s \<and> 0 < maxDim \<and>
           orbitMinDistance s \<le> distance * vlength viewDirection \<and>
           distance * vlength viewDirection \<le> orbitMaxDistance s \<longrightarrow>
             frameModel obj s = Inr (written\<lparr>trace := trace s @ [OrbitUpdate]\<rparr>))"
    if f: "0 < cameraFov s" "cameraFov s < 180" and b: "setFromObject obj = Some (lo, hi)"
      and size: "size = vsub hi lo"
      and center: "center = \<lparr>vx = (vx lo + vx hi) / 2, vy = (vy lo + vy hi) / 2, vz = (vz lo + vz hi) / 2\<rparr>"
      and maxDim: "maxDim = max (vx size) (max (vy size) (vz size))"
      and distance: "distance = maxDim / (2 * tan (cameraFov s * (pi / 180) / 2)) * 1.2"
      and written: "written = s\<lparr>cameraPosition :=
                          \<lparr>vx = vx center + distance * 0.4,
                           vy = vy center + distance * 0.25,
                           vz = vz center + distance * 0.9\<rparr>,
                        orbitTarget := center\<rparr>"
    for size center maxDim distance written
  proof -
    have md: "maxDimOf (setFromObject obj) = maxDim"
      by (simp add: b maxDimOf_def max3_def maxDim size)
    have nn: "0 \<le> maxDim"
      using maxDimOf_nonneg [of obj] md by simp
    have d: "cameraDistance (cameraFov s) maxDim = distance"
      by (simp add: cameraDistance_no_abs [OF f nn] distance)
    have c: "getCenter (setFromObject obj) = center"
      by (simp add: b center)
    have w: "frameWrites obj s = Inr written"
      by (simp add: frameWrites_ok [OF f] md d c written)
    have u: "frameModel obj s = Inr (orbitUpdate written)"
      by (simp add: frameModel_def w)
    have r: "frameModel obj s = Inr (written\<lparr>trace := trace s @ [OrbitUpdate]\<rparr>)"
      if "atRest s" "0 < maxDim" "orbitMinDistance s \<le> distance * vlength viewDirection"
        "distance * vlength viewDirection \<le> orbitMaxDistance s"
      using frameModel_atRest [OF f that(1), of obj] that(2,3,4)
      by (simp add: md d c written)
    from w u r show ?thesis by blast
  qed
  have f45: "0 < cameraFov (initViewer a b)" "cameraFov (initViewer a b) < 180"
    by (simp_all add: fov_init)
  have m6: "maxDimOf (Some (\<lparr>vx = -1, vy = -1, vz = -1\<rparr>, \<lparr>vx = 3, vy = 5, vz = 2\<rparr>)) = 6"
    by (simp add: maxDimOf_def max3_def vsub_def)
  have d6: "cameraDistance 45 6 = 3.6 * sqrt 2 + 3.6"
    by (simp add: cameraDistance_45 algebra_simps)
  have lo: "8.6911 < cameraDistance 45 6" and hi: "cameraDistance 45 6 < 8.6912"
    using sqrt2_bounds by (simp_all add: d6)
  have L1: "1 \<le> vlength viewDirection" by (rule viewLength_ge1)
  have L2: "vlength viewDirection \<le> 2"
    unfolding vlength_viewDirection by (rule real_le_lsqrt) simp_all
  have dmin: "orbitMinDistance (initViewer a b) \<le>
      cameraDistance (cameraFov (initViewer a b)) (maxDimOf (setFromObject scenarioObject))
        * vlength viewDirection"
  proof -
    have "1 * 1 \<le> cameraDistance 45 6 * vlength viewDirection"
      by (rule mult_mono) (use lo L1 in simp_all)
    then show ?thesis
      by (simp add: box_scenarioObject m6 fov_init initViewer_orbit)
  qed
  have dmax: "cameraDistance (cameraFov (initViewer a b)) (maxDimOf (setFromObject scenarioObject))
        * vlength viewDirection \<le> orbitMaxDistance (initViewer a b)"
  proof -
    have "cameraDistance 45 6 * vlength viewDirection \<le> 9 * 2"
      by (rule mult_mono) (use hi L1 L2 in simp_all)
    then show ?thesis
      by (simp add: box_scenarioObject m6 fov_init initViewer_orbit)
  qed
  have m0: "0 < maxDimOf (setFromObject scenarioObject)"
    by (simp add: box_scenarioObject m6)
  note fm = frameModel_atRest [OF f45 initViewer_orbit(4) m0 dmin dmax]
  have scen: "(case frameModel scenarioObject (initViewer a b) of
      Inl e \<Rightarrow> False
    | Inr s' \<Rightarrow>
        orbitTarget s' = \<lparr>vx = 1, vy = 2, vz = 0.5\<rparr> \<and>
        \<bar>vx (cameraPosition s') - (1 + 3.48)\<bar> < 0.01 \<and>
        \<bar>vy (cameraPosition s') - (2 + 2.175)\<bar> < 0.01 \<and>
        \<bar>vz (cameraPosition s') - (0.5 + 7.83)\<bar> < 0.01)"
    using lo hi
    by (simp add: fm box_scenarioObject m6 fov_init abs_if)
  have gen: "0 < cameraFov s \<and> cameraFov s < 180 \<and> setFromObject obj = Some (lo, hi) \<longrightarrow>
      (let size = vsub hi lo;
           center = \<lparr>vx = (vx lo + vx hi) / 2, vy = (vy lo + vy hi) / 2, vz = (vz lo + vz hi) / 2\<rparr>;
           maxDim = max (vx size) (max (vy size) (vz size));
           distance = maxDim / (2 * tan (cameraFov s * (pi / 180) / 2)) * 1.2;
           written = s\<lparr>cameraPosition :=
                          \<lparr>vx = vx center + distance * 0.4,
                           vy = vy center + distance * 0.25,
                           vz = vz center + distance * 0.9\<rparr>,
                        orbitTarget := center\<rparr>
       in frameWrites obj s = Inr written \<and>
          frameModel obj s = Inr (orbitUpdate written) \<and>
          (atRest s \<and> 0 < maxDim \<and>
           orbitMinDistance s \<le> distance * vlength viewDirection \<and>
           distance * vlength viewDirection \<le> orbitMaxDistance s \<longrightarrow>
             frameModel obj s = Inr (written\<lparr>trace := trace s @ [OrbitUpdate]\<rparr>)))"
    unfolding Let_def
    by (intro impI, elim conjE, rule general [OF _ _ _ refl refl refl refl refl], assumption+)
  have c2: "setFromObject scenarioObject =
      Some (\<lparr>vx = -1, vy = -1, vz = -1\<rparr>, \<lparr>vx = 3, vy = 5, vz = 2\<rparr>)"
    by (simp add: box_scenarioObject)
  have c3: "cameraFov (initViewer a b) = 45"
    by (rule fov_init)
  have c4: "\<bar>cameraDistance 45 6 - 8.70\<bar> < 0.01"
    using lo hi by (simp add: abs_if)
  from gen c2 c3 c4 scen show ?thesis
    by blast
qed

theorem frameModel_formula_witness:
  "0 < cameraFov (initViewer False False) \<and> cameraFov (initViewer False False) < 180 \<and>
   setFromObject scenarioObject = Some (\<lparr>vx = -1, vy = -1, vz = -1\<rparr>, \<lparr>vx = 3, vy = 5, vz = 2\<rparr>) \<and>
   atRest (initViewer False False) \<and>
   frameModel scenarioObject (initViewer False False) =
     Inr ((initViewer False False)
            \<lparr>cameraPosition :=
               \<lparr>vx = 1 + 6 / (2 * tan (45 * (pi / 180) / 2)) * 1.2 * 0.4,
                vy = 2 + 6 / (2 * tan (45 * (pi / 180) / 2)) * 1.2 * 0.25,
                vz = 0.5 + 6 / (2 * tan (45 * (pi / 180) / 2)) * 1.2 * 0.9\<rparr>,
             orbitTarget := \<lparr>vx = 1, vy = 2, vz = 0.5\<rparr>,
             trace := [OrbitUpdate]\<rparr>)"
proof -
  let ?s = "initViewer False False"
  let ?dist = "6 / (2 * tan (45 * (pi / 180) / 2)) * 1.2 :: real"
  have f: "0 < cameraFov ?s" "cameraFov ?s < 180"
    by (simp_all add: fov_init)
  note b = box_scenarioObject
  have r: "atRest ?s" by (rule initViewer_orbit(4))
  have dd: "?dist = cameraDistance 45 6"
    using cameraDistance_no_abs [of 45 6] by simp
  have d6: "cameraDistance 45 6 = 3.6 * sqrt 2 + 3.6"
    by (simp add: cameraDistance_45 algebra_simps)
  have lo: "8.6911 < cameraDistance 45 6" and hi: "cameraDistance 45 6 < 8.6912"
    using sqrt2_bounds by (simp_all add: d6)
  have L1: "1 \<le> vlength viewDirection" by (rule viewLength_ge1)
  have L2: "vlength viewDirection \<le> 2"
    unfolding vlength_viewDirection by (rule real_le_lsqrt) simp_all
  have dmin: "orbitMinDistance ?s \<le> ?dist * vlength viewDirection"
  proof -
    have "1 * 1 \<le> cameraDistance 45 6 * vlength viewDirection"
      by (rule mult_mono) (use lo L1 in simp_all)
    then show ?thesis unfolding dd by (simp add: initViewer_orbit)
  qed
  have dmax: "?dist * vlength viewDirection \<le> orbitMaxDistance ?s"
  proof -
    have "cameraDistance 45 6 * vlength viewDirection \<le> 9 * 2"
      by (rule mult_mono) (use hi L1 L2 in simp_all)
    then show ?thesis unfolding dd by (simp add: initViewer_orbit)
  qed
  from frameModel_formula [of ?s scenarioObject
      "\<lparr>vx = -1, vy = -1, vz = -1\<rparr>" "\<lparr>vx = 3, vy = 5, vz = 2\<rparr>" False False] f b r dmin dmax
  show ?thesis
    by (simp add: Let_def vsub_def fov_init initViewer_orbit) (elim conjE, simp)
qed

subsection \<open>Loading a model, resetting its transform\<close>

lemma setupLoadedModel_Inr:
  assumes "setupLoadedModel model nm s = Inr s'"
  shows "\<exists>s1 m. removePreviousModel s = Inr s1 \<and>
           centerAndScale (nameAndShadows model nm) = Inr m \<and>
           frameModel m (installModel m s1) = Inr s'"
  using assms
  by (simp add: setupLoadedModel_def split: sum.splits)

lemma installModel_fields:
  "currentModel (installModel m s) = Some m"
  "modelInitialTransform (installModel m s) =
     Some \<lparr>tposition = position m, trotation = rotation m, tscale = scale m\<rparr>"
  "hologramActive (installModel m s) = False"
  "originalMaterials (installModel m s) = Map.empty"
  "gizmoObject (installModel m s) = Some (rootUuid (tree m))"
  "sceneChildren (installModel m s) = sceneAdd (rootUuid (tree m)) (sceneChildren s)"
  "trace (installModel m s) = trace s @ [SceneAdd (rootUuid (tree m)), GizmoAttach (rootUuid (tree m))]"
  by (simp_all add: installModel_def Let_def emit_def)

lemma frameModel_fields:
  assumes "frameModel obj s = Inr s'"
  shows "currentModel s' = currentModel s" "modelInitialTransform s' = modelInitialTransform s"
    "hologramActive s' = hologramActive s" "originalMaterials s' = originalMaterials s"
    "gizmoObject s' = gizmoObject s" "sceneChildren s' = sceneChildren s"
    "trace s' = trace s @ [OrbitUpdate]"
    "cameraFov s' = cameraFov s" "nextRef s' = nextRef s" "currentHDRI s' = currentHDRI s"
    "sceneEnvironment s' = sceneEnvironment s" "sceneBackground s' = sceneBackground s"
    "hdriToggle s' = hdriToggle s"
proof -
  from assms obtain s1 where w: "frameWrites obj s = Inr s1" and u: "s' = orbitUpdate s1"
    by (auto simp: frameModel_def split: sum.splits)
  have s1: "s1 = s\<lparr>cameraPosition := cameraPosition s1, orbitTarget := orbitTarget s1\<rparr>"
    using w by (auto simp: frameWrites_def Let_def split: if_splits)
  show "currentModel s' = currentModel s" "modelInitialTransform s' = modelInitialTransform s"
    "hologramActive s' = hologramActive s" "originalMaterials s' = originalMaterials s"
    "gizmoObject s' = gizmoObject s" "sceneChildren s' = sceneChildren s"
    "trace s' = trace s @ [OrbitUpdate]"
    "cameraFov s' = cameraFov s" "nextRef s' = nextRef s" "currentHDRI s' = currentHDRI s"
    "sceneEnvironment s' = sceneEnvironment s" "sceneBackground s' = sceneBackground s"
    "hdriToggle s' = hdriToggle s"
    unfolding u orbitUpdate_fields by (subst s1, simp)+
qed

lemma setupLoadedModel_current:
  assumes "setupLoadedModel model nm s = Inr s'"
  shows "\<exists>m. centerAndScale (nameAndShadows model nm) = Inr m \<and> currentModel s' = Some m \<and>
           modelInitialTransform s' =
             Some \<lparr>tposition = position m, trotation = rotation m, tscale = scale m\<rparr> \<and>
           hologramActive s' = False \<and> originalMaterials s' = Map.empty \<and>
           gizmoObject s' = Some (rootUuid (tree m))"
proof -
  from setupLoadedModel_Inr [OF assms] obtain s1 m where
    c: "centerAndScale (nameAndShadows model nm) = Inr m" and
    f: "frameModel m (installModel m s1) = Inr s'"
    by blast
  show ?thesis
    using c frameModel_fields [OF f] by (simp add: installModel_fields)
qed


lemma applyEdit_keeps:
  "modelInitialTransform (applyEdit e s) = modelInitialTransform s"
  "(currentModel (applyEdit e s) = None) = (currentModel s = None)"
  by (cases e; simp add: gizmoEdit_def animate_def orbitUpdate_fields split: option.splits)+

lemma applyEdits_keeps:
  "modelInitialTransform (applyEdits es s) = modelInitialTransform s \<and>
   ((currentModel (applyEdits es s) = None) = (currentModel s = None))"
  unfolding applyEdits_def
  by (induction es arbitrary: s) (simp_all add: applyEdit_keeps)

lemma resetModelTransform_Some:
  "currentModel s = Some m \<Longrightarrow> modelInitialTransform s = Some t \<Longrightarrow>
   resetModelTransform s =
     s\<lparr>currentModel := Some (m\<lparr>position := tposition t, rotation := trotation t, scale := tscale t\<rparr>)\<rparr>"
  by (simp add: resetModelTransform_def)

text \<open>
  C9: after a successful load, whatever transform edits follow (gizmo edits of position,
  rotation and scale, and frames of the auto-rotation), resetting the transform puts the
  position, rotation and scale of the current model back to the snapshot taken at load
  time, which is the transform the load left, and changes nothing else; without a current
  model or without a snapshot the reset changes nothing.
\<close>

theorem resetModelTransform_restores:
  "(setupLoadedModel model nm s0 = Inr s1 \<longrightarrow>
      (\<exists>m0 m. currentModel s1 = Some m0 \<and>
         modelInitialTransform s1 =
           Some \<lparr>tposition = position m0, trotation = rotation m0, tscale = scale m0\<rparr> \<and>
         currentModel (applyEdits es s1) = Some m \<and>
         resetModelTransform (applyEdits es s1) =
           (applyEdits es s1)
             \<lparr>currentModel :=
                Some (m\<lparr>position := position m0, rotation := rotation m0, scale := scale m0\<rparr>)\<rparr>)) \<and>
   (currentModel s = None \<or> modelInitialTransform s = None \<longrightarrow> resetModelTransform s = s)"
proof (intro conjI impI)
  assume load: "setupLoadedModel model nm s0 = Inr s1"
  from setupLoadedModel_current [OF load] obtain m0 where
    cur: "currentModel s1 = Some m0" and
    snap: "modelInitialTransform s1 =
             Some \<lparr>tposition = position m0, trotation = rotation m0, tscale = scale m0\<rparr>"
    by blast
  from applyEdits_keeps [of es s1] cur obtain m where
    m: "currentModel (applyEdits es s1) = Some m"
    by (cases "currentModel (applyEdits es s1)") auto
  have snap': "modelInitialTransform (applyEdits es s1) =
             Some \<lparr>tposition = position m0, trotation = rotation m0, tscale = scale m0\<rparr>"
    using applyEdits_keeps [of es s1] snap by simp
  from resetModelTransform_Some [OF m snap'] cur snap m
  show "\<exists>m0 m. currentModel s1 = Some m0 \<and>
         modelInitialTransform s1 =
           Some \<lparr>tposition = position m0, trotation = rotation m0, tscale = scale m0\<rparr> \<and>
         currentModel (applyEdits es s1) = Some m \<and>
         resetModelTransform (applyEdits es s1) =
           (applyEdits es s1)
             \<lparr>currentModel :=
                Some (m\<lparr>position := position m0, rotation := rotation m0, scale := scale m0\<rparr>)\<rparr>"
    by auto
next
  assume "currentModel s = None \<or> modelInitialTransform s = None"
  then show "resetModelTransform s = s"
    by (auto simp: resetModelTransform_def split: option.splits)
qed

text \<open>
  C10: without a current model, toggling the material override in either direction
  leaves the whole state as it is: the flag, the map and every material.
\<close>

theorem toggleHologram_no_model:
  "currentModel s = None \<Longrightarrow> toggleHologram enabled s = s"
  by (simp add: toggleHologram_def)

theorem toggleHologram_no_model_witness:
  "currentModel (initViewer False False) = None \<and>
   toggleHologram True (initViewer False False) = initViewer False False \<and>
   toggleHologram False (initViewer False False) = initViewer False False"
proof -
  have n: "currentModel (initViewer False False) = None"
    by (simp add: initViewer_def)
  from toggleHologram_no_model [OF n, of True] toggleHologram_no_model [OF n, of False] n
  show ?thesis by simp
qed

subsection \<open>Loads that succeed\<close>

lemma nameAndShadows_fields:
  "position (nameAndShadows model nm) = position model"
  "rotation (nameAndShadows model nm) = rotation model"
  "scale (nameAndShadows model nm) = scale model"
  "corners (nameAndShadows model nm) = corners model"
  "tree (nameAndShadows model nm) = fst (traverse enableShadows (tree model) ())"
  by (simp_all add: nameAndShadows_def Let_def)

lemma toWorld_cong:
  "position m = position m' \<Longrightarrow> rotation m = rotation m' \<Longrightarrow> scale m = scale m' \<Longrightarrow>
   toWorld m = toWorld m'"
  by (rule ext) (simp add: toWorld_def)

lemma setFromObject_nameAndShadows:
  "setFromObject (nameAndShadows model nm) = setFromObject model"
  by (simp add: setFromObject_def nameAndShadows_fields
      toWorld_cong [of "nameAndShadows model nm" model])

lemma centerAndScale_tree:
  "centerAndScale m = Inr m' \<Longrightarrow> tree m' = tree m \<and> corners m' = corners m \<and> rotation m' = rotation m"
  by (auto simp: centerAndScale_def Let_def split: if_splits)

lemma centerAndScale_succeeds:
  "maxDimOf (setFromObject m) \<noteq> 0 \<Longrightarrow> \<exists>m'. centerAndScale m = Inr m'"
  by (simp add: centerAndScale_def Let_def maxDimOf_def)

lemma rootUuid_traverse:
  "(\<And>obj s. uuid (fst (cb obj s)) = uuid obj) \<Longrightarrow> rootUuid (fst (traverse cb n s)) = rootUuid n"
proof (cases n)
  case (Node obj cs)
  assume u: "\<And>obj s. uuid (fst (cb obj s)) = uuid obj"
  show ?thesis
    using u [of obj s]
    by (auto simp: Node rootUuid_def split: prod.splits)
qed

lemma enableShadows_uuid: "uuid (fst (enableShadows obj u)) = uuid obj"
  by (simp add: enableShadows_def)

lemma rootUuid_nameAndShadows:
  "rootUuid (tree (nameAndShadows model nm)) = rootUuid (tree model)"
  by (simp add: nameAndShadows_fields rootUuid_traverse enableShadows_uuid)

lemma wfSlot_setProp: "wfSlot (setProp k v slot) = wfSlot slot"
  by (cases slot) (simp_all add: setProp_def)

lemma visit_enableShadows:
  "visit enableShadows objs u = (map (\<lambda>c. fst (enableShadows c ())) objs, ())"
  by (induction objs) (simp_all add: enableShadows_def)

lemma wellFormed_nameAndShadows:
  "wellFormed (tree model) \<Longrightarrow> wellFormed (tree (nameAndShadows model nm))"
  by (simp add: wellFormed_def nameAndShadows_fields flatten_traverse visit_enableShadows
      list_all_iff enableShadows_def wfSlot_setProp)

lemma removePreviousModel_succeeds:
  "(case currentModel s of None \<Rightarrow> True | Some old \<Rightarrow> wellFormed (tree old)) \<Longrightarrow>
   \<exists>s1. removePreviousModel s = Inr s1 \<and> cameraFov s1 = cameraFov s"
  by (auto simp: removePreviousModel_def Let_def emit_def disposeObject_wf split: option.splits)

lemma setupLoadedModel_succeeds:
  assumes fov: "0 < cameraFov s" "cameraFov s < 180"
    and old: "case currentModel s of None \<Rightarrow> True | Some old \<Rightarrow> wellFormed (tree old)"
    and dim: "maxDimOf (setFromObject model) \<noteq> 0"
  shows "\<exists>s'. setupLoadedModel model nm s = Inr s'"
proof -
  from removePreviousModel_succeeds [OF old] obtain s1 where
    r: "removePreviousModel s = Inr s1" and f1: "cameraFov s1 = cameraFov s" by blast
  from centerAndScale_succeeds [of "nameAndShadows model nm"] dim obtain m where
    c: "centerAndScale (nameAndShadows model nm) = Inr m"
    by (auto simp: setFromObject_nameAndShadows)
  have f2: "cameraFov (installModel m s1) = cameraFov s"
    by (simp add: installModel_def Let_def emit_def f1)
  have "0 < cameraFov (installModel m s1)" "cameraFov (installModel m s1) < 180"
    using fov by (simp_all add: f2)
  from frameModel_ok [OF this, of m] r c show ?thesis
    by (auto simp: setupLoadedModel_def)
qed

lemma setupLoadedModel_keeps:
  assumes "setupLoadedModel model nm s = Inr s'"
  shows "cameraFov s' = cameraFov s"
proof -
  from setupLoadedModel_Inr [OF assms] obtain s1 m where
    r: "removePreviousModel s = Inr s1" and
    f: "frameModel m (installModel m s1) = Inr s'" by blast
  have 1: "cameraFov s1 = cameraFov s"
    using r by (auto simp: removePreviousModel_def Let_def emit_def split: option.splits sum.splits)
  have 2: "cameraFov s' = cameraFov (installModel m s1)"
    by (rule frameModel_fields(8) [OF f])
  show ?thesis by (simp add: 1 2 installModel_def Let_def emit_def)
qed

lemma maxDim_scenarioObject: "maxDimOf (setFromObject scenarioObject) = 6"
  by (simp add: box_scenarioObject maxDimOf_def max3_def vsub_def)

lemma loadedViewer_load:
  "setupLoadedModel scenarioObject ''box'' (initViewer False False) = Inr loadedViewer"
proof -
  have "\<exists>s'. setupLoadedModel scenarioObject ''box'' (initViewer False False) = Inr s'"
    by (rule setupLoadedModel_succeeds) (simp_all add: fov_init maxDim_scenarioObject, simp add: initViewer_def)
  then show ?thesis by (auto simp: loadedViewer_def)
qed

lemma centerAndScale_scenario:
  "centerAndScale (nameAndShadows scenarioObject nm) =
     Inr ((nameAndShadows scenarioObject nm)\<lparr>position := \<lparr>vx = -1, vy = 1, vz = -1/2\<rparr>\<rparr>)"
  by (simp add: centerAndScale_def setFromObject_nameAndShadows box_scenarioObject Let_def
      nameAndShadows_fields vsub_def max3_def)
     (simp add: scenarioObject_def vzero_def)

subsection \<open>Normalisation of a loaded model\<close>

lemma currentModel_loadedViewer:
  "currentModel loadedViewer =
     Some ((nameAndShadows scenarioObject ''box'')\<lparr>position := \<lparr>vx = -1, vy = 1, vz = - (1 / 2)\<rparr>\<rparr>)"
  using setupLoadedModel_current [OF loadedViewer_load]
  by (auto simp: centerAndScale_scenario)

text \<open>
  A load followed by a move, a frame of auto-rotation and a scaling; the reset brings the
  transform of the load back.
\<close>

theorem resetModelTransform_restores_witness:
  "setupLoadedModel scenarioObject ''box'' (initViewer False False) = Inr loadedViewer \<and>
   (\<exists>m. currentModel
          (resetModelTransform
             (applyEdits [GizmoPosition \<lparr>vx = 5, vy = 5, vz = 5\<rparr>, Frame 0.1,
                          GizmoScale \<lparr>vx = 2, vy = 2, vz = 2\<rparr>] loadedViewer)) = Some m \<and>
        position m = \<lparr>vx = -1, vy = 1, vz = - (1 / 2)\<rparr> \<and> rotation m = vzero \<and>
        scale m = setScalar 1)"
proof -
  let ?es = "[GizmoPosition \<lparr>vx = 5, vy = 5, vz = 5\<rparr>, Frame 0.1, GizmoScale \<lparr>vx = 2, vy = 2, vz = 2\<rparr>]"
  from resetModelTransform_restores [of scenarioObject "''box''" "initViewer False False"
      loadedViewer ?es "initViewer False False"] loadedViewer_load
  obtain m0 m where
    m0: "currentModel loadedViewer = Some m0" and
    r: "resetModelTransform (applyEdits ?es loadedViewer) =
           (applyEdits ?es loadedViewer)
             \<lparr>currentModel :=
                Some (m\<lparr>position := position m0, rotation := rotation m0, scale := scale m0\<rparr>)\<rparr>"
    by blast
  from m0 have p: "position m0 = \<lparr>vx = -1, vy = 1, vz = - (1 / 2)\<rparr>" "rotation m0 = vzero"
    "scale m0 = setScalar 1"
    by (auto simp: currentModel_loadedViewer nameAndShadows_fields scenarioObject_def)
  show ?thesis
    using loadedViewer_load by (simp add: r p)
qed

lemma box_offCentreModel:
  "setFromObject offCentreModel = Some (\<lparr>vx = 100, vy = 0, vz = 0\<rparr>, \<lparr>vx = 120, vy = 1, vz = 1\<rparr>)"
proof -
  have w: "toWorld offCentreModel v = v" for v
    by (rule toWorld_identity) (simp_all add: offCentreModel_def)
  have c: "corners offCentreModel = [\<lparr>vx = 100, vy = 0, vz = 0\<rparr>, \<lparr>vx = 120, vy = 1, vz = 1\<rparr>]"
    by (simp add: offCentreModel_def)
  show ?thesis
    unfolding setFromObject_def c
    by (simp add: w setFromPoints_def vmin_def vmax_def)
qed

lemma centerAndScale_offCentre:
  "centerAndScale (nameAndShadows offCentreModel nm) =
     Inr ((nameAndShadows offCentreModel nm)
            \<lparr>position := \<lparr>vx = -110, vy = 0, vz = - (1 / 2)\<rparr>, scale := setScalar (3 / 20)\<rparr>)"
  by (simp add: centerAndScale_def setFromObject_nameAndShadows box_offCentreModel Let_def
      nameAndShadows_fields vsub_def max3_def)
     (simp add: offCentreModel_def vzero_def)

lemma box_offCentre_normalized:
  "setFromObject ((nameAndShadows offCentreModel nm)
            \<lparr>position := \<lparr>vx = -110, vy = 0, vz = - (1 / 2)\<rparr>, scale := setScalar (3 / 20)\<rparr>) =
     Some (\<lparr>vx = -95, vy = 0, vz = - (1 / 2)\<rparr>, \<lparr>vx = -92, vy = 3/20, vz = - (7 / 20)\<rparr>)"
proof -
  let ?m = "(nameAndShadows offCentreModel nm)
            \<lparr>position := \<lparr>vx = -110, vy = 0, vz = - (1 / 2)\<rparr>, scale := setScalar (3 / 20)\<rparr>"
  have r: "rotation (nameAndShadows offCentreModel nm) = vzero"
    by (simp add: nameAndShadows_fields offCentreModel_def)
  have w: "toWorld ?m v =
      \<lparr>vx = -110 + 3/20 * vx v, vy = 3/20 * vy v, vz = - (1 / 2) + 3/20 * vz v\<rparr>" for v
    by (simp add: toWorld_def r applyEuler_def vzero_def vmul_def vadd_def setScalar_def)
  have c: "corners ?m = [\<lparr>vx = 100, vy = 0, vz = 0\<rparr>, \<lparr>vx = 120, vy = 1, vz = 1\<rparr>]"
    by (simp add: nameAndShadows_fields offCentreModel_def)
  show ?thesis
    unfolding setFromObject_def c
    by (simp add: w setFromPoints_def vmin_def vmax_def)
qed

text \<open>
  C4 on a model whose geometry lies away from its origin and is larger than 10: the load
  moves the model by the centre of the box it had before rescaling and then rescales it
  about its own origin, so the bounding box of the loaded model is
  [(-95, 0, -0.5), (-92, 0.15, -0.35)]. Its largest dimension is 3, but its centre is at
  x = -93.5 and z = -0.425, not at 0.
\<close>

theorem setupLoadedModel_off_centre:
  "(case setupLoadedModel offCentreModel ''beam'' (initViewer False False) of
      Inl e \<Rightarrow> False
    | Inr s \<Rightarrow>
        (case currentModel s of
           None \<Rightarrow> False
         | Some m \<Rightarrow>
             setFromObject m =
               Some (\<lparr>vx = -95, vy = 0, vz = - (1 / 2)\<rparr>, \<lparr>vx = -92, vy = 3/20, vz = - (7 / 20)\<rparr>) \<and>
             vx (getCenter (setFromObject m)) = - (187 / 2) \<and>
             vz (getCenter (setFromObject m)) = - (17 / 40) \<and>
             maxDimOf (setFromObject m) = 3))"
proof -
  have "\<exists>s. setupLoadedModel offCentreModel ''beam'' (initViewer False False) = Inr s"
    by (rule setupLoadedModel_succeeds)
       (simp_all add: fov_init box_offCentreModel maxDimOf_def max3_def vsub_def, simp add: initViewer_def)
  then obtain s where s: "setupLoadedModel offCentreModel ''beam'' (initViewer False False) = Inr s"
    by blast
  from setupLoadedModel_current [OF s] have
    c: "currentModel s = Some ((nameAndShadows offCentreModel ''beam'')
            \<lparr>position := \<lparr>vx = -110, vy = 0, vz = - (1 / 2)\<rparr>, scale := setScalar (3 / 20)\<rparr>)"
    by (auto simp: centerAndScale_offCentre)
  show ?thesis
    by (simp add: s c box_offCentre_normalized maxDimOf_def max3_def vsub_def)
qed

subsection \<open>Normalisation without rescaling\<close>

lemma expandByPoint_shift:
  "expandByPoint (map_option (\<lambda>(lo, hi). (vadd t lo, vadd t hi)) b) (vadd t p) =
   map_option (\<lambda>(lo, hi). (vadd t lo, vadd t hi)) (expandByPoint b p)"
  by (cases b) (auto simp: vadd_def vmin_def vmax_def)

lemma foldl_expand_shift:
  "foldl expandByPoint (map_option (\<lambda>(lo, hi). (vadd t lo, vadd t hi)) b) (map (vadd t) ps) =
   map_option (\<lambda>(lo, hi). (vadd t lo, vadd t hi)) (foldl expandByPoint b ps)"
proof (induction ps arbitrary: b)
  case Nil
  show ?case by simp
next
  case (Cons p ps)
  show ?case
    using Cons [of "expandByPoint b p"] by (simp add: expandByPoint_shift)
qed

lemma setFromPoints_shift:
  "setFromPoints (map (vadd t) ps) =
   map_option (\<lambda>(lo, hi). (vadd t lo, vadd t hi)) (setFromPoints ps)"
  using foldl_expand_shift [of t None ps] by (simp add: setFromPoints_def)

lemma toWorld_moved:
  "toWorld (m\<lparr>position := p\<rparr>) v = vadd (vsub p (position m)) (toWorld m v)"
  by (simp add: toWorld_def vadd_def vsub_def)

lemma setFromObject_moved:
  "setFromObject (m\<lparr>position := p\<rparr>) =
   map_option (\<lambda>(lo, hi). (vadd (vsub p (position m)) lo, vadd (vsub p (position m)) hi))
     (setFromObject m)"
proof -
  have e: "map (toWorld (m\<lparr>position := p\<rparr>)) (corners m) =
        map (vadd (vsub p (position m))) (map (toWorld m) (corners m))"
    by (simp add: toWorld_moved)
  have c: "corners (m\<lparr>position := p\<rparr>) = corners m"
    by simp
  show ?thesis
    unfolding setFromObject_def c e setFromPoints_shift ..
qed

text \<open>
  When the largest dimension lies in [0.1, 10] the model is not rescaled, and the box is
  centred in x and z and stands on y = 0, whatever the position was before.
\<close>

lemma centerAndScale_without_rescale:
  assumes b: "setFromObject m = Some (lo, hi)"
    and r: "0.1 \<le> maxDimOf (setFromObject m)" "maxDimOf (setFromObject m) \<le> 10"
  shows "\<exists>m' lo' hi'. centerAndScale m = Inr m' \<and> setFromObject m' = Some (lo', hi') \<and>
           vx (getCenter (setFromObject m')) = 0 \<and> vz (getCenter (setFromObject m')) = 0 \<and>
           vy lo' = 0"
proof -
  let ?p = "(vsub (position m) (getCenter (Some (lo, hi))))
              \<lparr>vy := vy (vsub (position m) (getCenter (Some (lo, hi)))) + vy (vsub hi lo) / 2\<rparr>"
  have c: "centerAndScale m = Inr (m\<lparr>position := ?p\<rparr>)"
    using r by (simp add: centerAndScale_def b Let_def maxDimOf_def)
  show ?thesis
    by (simp add: c setFromObject_moved b vadd_def vsub_def field_simps)
qed

subsection \<open>The hologram material override\<close>

lemma visit_holoEnable:
  "visit holoEnable objs (om, r) =
     (previewed r objs, (snapshot om objs, r + length (filter isMesh objs)))"
  by (induction objs arbitrary: om r) (simp_all add: holoEnable_def Let_def)

lemma visit_holoDisable:
  "visit (holoDisable om) objs t =
     (map (restored om) objs, t @ concat (map (previewDisposals om) objs))"
  by (induction objs arbitrary: t)
     (auto simp: holoDisable_def restored_def previewDisposals_def
        split: option.splits matslot.splits)

lemma snapshot_keep: "om k = Some v \<Longrightarrow> snapshot om objs k = Some v"
proof (induction objs arbitrary: om)
  case Nil
  then show ?case by simp
next
  case (Cons a objs)
  show ?case
  proof (cases "isMesh a \<and> om (uuid a) = None")
    case True
    with Cons.prems have ne: "uuid a \<noteq> k" by auto
    have step: "snapshot om (a # objs) = snapshot (om(uuid a \<mapsto> material a)) objs"
      using True by simp
    have "snapshot (om(uuid a \<mapsto> material a)) objs k = Some v"
      by (rule Cons.IH) (use ne Cons.prems in simp)
    then show ?thesis unfolding step .
  next
    case False
    with Cons.IH [of om, OF Cons.prems] show ?thesis by auto
  qed
qed

lemma snapshot_dom:
  "dom (snapshot om objs) = dom om \<union> uuid ` {c \<in> set objs. isMesh c}"
  by (induction objs arbitrary: om) auto

lemma snapshot_same:
  "(\<forall>c \<in> set objs. isMesh c \<longrightarrow> om (uuid c) \<noteq> None) \<Longrightarrow> snapshot om objs = om"
  by (induction objs arbitrary: om) auto

lemma previewed_uuid: "map uuid (previewed r objs) = map uuid objs"
  by (induction objs arbitrary: r) auto

lemma previewed_isMesh: "map isMesh (previewed r objs) = map isMesh objs"
  by (induction objs arbitrary: r) auto

lemma previewed_length: "length (filter isMesh (previewed r objs)) = length (filter isMesh objs)"
  by (induction objs arbitrary: r) auto

lemma previewed_meshes:
  "c \<in> set (previewed r objs) \<Longrightarrow> isMesh c \<Longrightarrow>
   \<exists>q. r \<le> q \<and> q < r + length (filter isMesh objs) \<and>
       material c = Single (createHologramMaterial q) \<and> \<not> castShadow c \<and> \<not> receiveShadow c"
proof (induction objs arbitrary: r)
  case Nil
  then show ?case by simp
next
  case (Cons a objs)
  show ?case
  proof (cases "isMesh a")
    case True
    with Cons.prems consider
      "c = a\<lparr>material := Single (createHologramMaterial r), castShadow := False, receiveShadow := False\<rparr>"
      | "c \<in> set (previewed (Suc r) objs)" by auto
    then show ?thesis
    proof cases
      case 1
      with True show ?thesis by auto
    next
      case 2
      from Cons.IH [OF 2 Cons.prems(2)] True show ?thesis
        by (auto intro: Suc_leD)
    qed
  next
    case False
    with Cons.prems have "c \<in> set (previewed r objs)" by auto
    from Cons.IH [OF this Cons.prems(2)] False show ?thesis by auto
  qed
qed

lemma snapshot_has:
  "c \<in> set objs \<Longrightarrow> isMesh c \<Longrightarrow> snapshot om objs (uuid c) \<noteq> None"
proof (induction objs arbitrary: om)
  case Nil
  then show ?case by simp
next
  case (Cons a objs)
  let ?om = "if isMesh a \<and> om (uuid a) = None then om(uuid a \<mapsto> material a) else om"
  show ?case
  proof (cases "c = a")
    case True
    have "\<exists>v. ?om (uuid c) = Some v"
      by (cases "om (uuid a)") (use True Cons.prems in auto)
    then obtain v where "?om (uuid c) = Some v" ..
    from snapshot_keep [of ?om "uuid c" v objs, OF this] show ?thesis by simp
  next
    case False
    with Cons.prems have "c \<in> set objs" by simp
    from Cons.IH [OF this Cons.prems(2), of ?om] show ?thesis by simp
  qed
qed

lemma previewed_origin:
  "c \<in> set (previewed r objs) \<Longrightarrow> isMesh c \<Longrightarrow> \<exists>c0 \<in> set objs. isMesh c0 \<and> uuid c0 = uuid c"
proof (induction objs arbitrary: r)
  case Nil
  then show ?case by simp
next
  case (Cons a objs)
  show ?case
  proof (cases "isMesh a")
    case True
    with Cons.prems consider
      "c = a\<lparr>material := Single (createHologramMaterial r), castShadow := False, receiveShadow := False\<rparr>"
      | "c \<in> set (previewed (Suc r) objs)" by auto
    then show ?thesis
    proof cases
      case 1
      with True show ?thesis by simp
    next
      case 2
      from Cons.IH [OF 2 Cons.prems(2)] show ?thesis by auto
    qed
  next
    case False
    with Cons.prems have "c \<in> set (previewed r objs)" by auto
    from Cons.IH [OF this Cons.prems(2)] show ?thesis by auto
  qed
qed

lemma previewed_snapshot:
  "snapshot (snapshot om objs) (previewed r objs) = snapshot om objs"
proof (rule snapshot_same, intro ballI impI)
  fix c assume c: "c \<in> set (previewed r objs)" and m: "isMesh c"
  from previewed_origin [OF c m] obtain c0 where
    "c0 \<in> set objs" "isMesh c0" "uuid c0 = uuid c" by blast
  with snapshot_has [of c0 objs om] show "snapshot om objs (uuid c) \<noteq> None" by simp
qed

lemma toggleHologram_True:
  assumes "currentModel s = Some m"
  shows "\<exists>tree'. flatten tree' = previewed (nextRef s) (flatten (tree m)) \<and>
           toggleHologram True s =
             s\<lparr>hologramActive := True,
               currentModel := Some (m\<lparr>tree := tree'\<rparr>),
               originalMaterials := snapshot (originalMaterials s) (flatten (tree m)),
               nextRef := nextRef s + length (filter isMesh (flatten (tree m)))\<rparr>"
proof -
  obtain tree' om r where
    t: "traverse holoEnable (tree m) (originalMaterials s, nextRef s) = (tree', (om, r))"
    by (metis prod.exhaust)
  from traverse_visit(1) [OF t] have
    "flatten tree' = previewed (nextRef s) (flatten (tree m))"
    "om = snapshot (originalMaterials s) (flatten (tree m))"
    "r = nextRef s + length (filter isMesh (flatten (tree m)))"
    by (simp_all add: visit_holoEnable)
  with assms t show ?thesis
    by (intro exI [of _ tree']) (simp add: toggleHologram_def)
qed

lemma toggleHologram_False:
  assumes "currentModel s = Some m"
  shows "\<exists>tree'. flatten tree' = map (restored (originalMaterials s)) (flatten (tree m)) \<and>
           toggleHologram False s =
             s\<lparr>hologramActive := False,
               currentModel := Some (m\<lparr>tree := tree'\<rparr>),
               trace := trace s @ concat (map (previewDisposals (originalMaterials s)) (flatten (tree m)))\<rparr>"
proof -
  obtain tree' t where
    t: "traverse (holoDisable (originalMaterials s)) (tree m) [] = (tree', t)"
    by (metis prod.exhaust)
  from traverse_visit(1) [OF t] have
    "flatten tree' = map (restored (originalMaterials s)) (flatten (tree m))"
    "t = concat (map (previewDisposals (originalMaterials s)) (flatten (tree m)))"
    by (simp_all add: visit_holoDisable)
  with assms t show ?thesis
    by (intro exI [of _ tree']) (simp add: toggleHologram_def emit_def)
qed

subsection \<open>Enabling twice, disabling\<close>

text \<open>
  C5, amended: enabling the override when it is already enabled leaves the binding map as
  it is (the same keys, no original material recorded again), keeps the flag set and the
  shadows off and disposes nothing; but it is not a no-op: every mesh of the current model
  gets its material replaced a second time, by a preview material newer than each of
  those the first enabling had put in place.
\<close>

theorem toggleHologram_enable_twice:
  assumes "currentModel s = Some m"
  shows "originalMaterials (toggleHologram True (toggleHologram True s)) =
           originalMaterials (toggleHologram True s) \<and>
         hologramActive (toggleHologram True (toggleHologram True s)) \<and>
         trace (toggleHologram True (toggleHologram True s)) = trace (toggleHologram True s) \<and>
         (\<exists>m1 m2. currentModel (toggleHologram True s) = Some m1 \<and>
            currentModel (toggleHologram True (toggleHologram True s)) = Some m2 \<and>
            map uuid (flatten (tree m2)) = map uuid (flatten (tree m1)) \<and>
            (\<forall>c \<in> set (meshesOf m1).
               \<exists>q. q < nextRef (toggleHologram True s) \<and>
                   material c = Single (createHologramMaterial q)) \<and>
            (\<forall>c \<in> set (meshesOf m2).
               \<exists>q. nextRef (toggleHologram True s) \<le> q \<and>
                   material c = Single (createHologramMaterial q) \<and>
                   \<not> castShadow c \<and> \<not> receiveShadow c))"
proof -
  let ?s1 = "toggleHologram True s"
  from toggleHologram_True [OF assms] obtain t1 where
    f1: "flatten t1 = previewed (nextRef s) (flatten (tree m))" and
    s1: "?s1 = s\<lparr>hologramActive := True,
               currentModel := Some (m\<lparr>tree := t1\<rparr>),
               originalMaterials := snapshot (originalMaterials s) (flatten (tree m)),
               nextRef := nextRef s + length (filter isMesh (flatten (tree m)))\<rparr>"
    by blast
  have c1: "currentModel ?s1 = Some (m\<lparr>tree := t1\<rparr>)"
    and o1: "originalMaterials ?s1 = snapshot (originalMaterials s) (flatten (tree m))"
    and n1: "nextRef ?s1 = nextRef s + length (filter isMesh (flatten (tree m)))"
    by (simp_all add: s1)
  from toggleHologram_True [OF c1] obtain t2 where
    f2: "flatten t2 = previewed (nextRef ?s1) (flatten t1)" and
    s2: "toggleHologram True ?s1 = ?s1\<lparr>hologramActive := True,
               currentModel := Some (m\<lparr>tree := t1, tree := t2\<rparr>),
               originalMaterials := snapshot (originalMaterials ?s1) (flatten t1),
               nextRef := nextRef ?s1 + length (filter isMesh (flatten t1))\<rparr>"
    by auto
  have a: "originalMaterials (toggleHologram True ?s1) = originalMaterials ?s1"
    by (simp add: s2) (simp add: o1 f1 previewed_snapshot)
  have b: "hologramActive (toggleHologram True ?s1)"
    by (simp add: s2)
  have t: "trace (toggleHologram True ?s1) = trace ?s1"
    by (simp add: s2)
  have c2: "currentModel (toggleHologram True ?s1) = Some (m\<lparr>tree := t2\<rparr>)"
    by (simp add: s2)
  have u: "map uuid (flatten (tree (m\<lparr>tree := t2\<rparr>))) = map uuid (flatten (tree (m\<lparr>tree := t1\<rparr>)))"
    by (simp add: f2 previewed_uuid)
  have m1: "\<forall>c \<in> set (meshesOf (m\<lparr>tree := t1\<rparr>)).
               \<exists>q. q < nextRef ?s1 \<and> material c = Single (createHologramMaterial q)"
  proof
    fix c assume "c \<in> set (meshesOf (m\<lparr>tree := t1\<rparr>))"
    then have "c \<in> set (previewed (nextRef s) (flatten (tree m)))" "isMesh c"
      by (simp_all add: meshesOf_def f1)
    from previewed_meshes [OF this] show
      "\<exists>q. q < nextRef ?s1 \<and> material c = Single (createHologramMaterial q)"
      by (auto simp: n1)
  qed
  have m2: "\<forall>c \<in> set (meshesOf (m\<lparr>tree := t2\<rparr>)).
               \<exists>q. nextRef ?s1 \<le> q \<and> material c = Single (createHologramMaterial q) \<and>
                   \<not> castShadow c \<and> \<not> receiveShadow c"
  proof
    fix c assume "c \<in> set (meshesOf (m\<lparr>tree := t2\<rparr>))"
    then have "c \<in> set (previewed (nextRef ?s1) (flatten t1))" "isMesh c"
      by (simp_all add: meshesOf_def f2)
    from previewed_meshes [OF this] show
      "\<exists>q. nextRef ?s1 \<le> q \<and> material c = Single (createHologramMaterial q) \<and>
                   \<not> castShadow c \<and> \<not> receiveShadow c"
      by auto
  qed
  from a b t c1 c2 u m1 m2 show ?thesis by blast
qed

text \<open>
  C6, amended: disabling restores, for every mesh with a recorded binding, the recorded
  material and the casting and receiving of shadows, disposes the single material the
  mesh carried, clears the flag and changes nothing else; in particular it leaves the
  binding map as it is. The map is emptied, and the flag cleared, by every successful
  load of a model.
\<close>

theorem toggleHologram_disable:
  "(currentModel s = Some m \<longrightarrow>
      originalMaterials (toggleHologram False s) = originalMaterials s \<and>
      (\<exists>tree'. flatten tree' = map (restored (originalMaterials s)) (flatten (tree m)) \<and>
         toggleHologram False s =
           s\<lparr>hologramActive := False,
             currentModel := Some (m\<lparr>tree := tree'\<rparr>),
             trace := trace s @ concat (map (previewDisposals (originalMaterials s)) (flatten (tree m)))\<rparr>)) \<and>
   (setupLoadedModel model nm s0 = Inr s' \<longrightarrow>
      originalMaterials s' = Map.empty \<and> \<not> hologramActive s')"
proof (intro conjI impI)
  assume c: "currentModel s = Some m"
  from toggleHologram_False [OF c] obtain tree' where
    f: "flatten tree' = map (restored (originalMaterials s)) (flatten (tree m))" and
    e: "toggleHologram False s =
           s\<lparr>hologramActive := False,
             currentModel := Some (m\<lparr>tree := tree'\<rparr>),
             trace := trace s @ concat (map (previewDisposals (originalMaterials s)) (flatten (tree m)))\<rparr>"
    by blast
  show "originalMaterials (toggleHologram False s) = originalMaterials s"
    by (simp add: e)
  from f e show "\<exists>tree'. flatten tree' = map (restored (originalMaterials s)) (flatten (tree m)) \<and>
         toggleHologram False s =
           s\<lparr>hologramActive := False,
             currentModel := Some (m\<lparr>tree := tree'\<rparr>),
             trace := trace s @ concat (map (previewDisposals (originalMaterials s)) (flatten (tree m)))\<rparr>"
    by blast
next
  assume l: "setupLoadedModel model nm s0 = Inr s'"
  from setupLoadedModel_current [OF l] show "originalMaterials s' = Map.empty" by blast
next
  assume l: "setupLoadedModel model nm s0 = Inr s'"
  from setupLoadedModel_current [OF l] show "\<not> hologramActive s'" by auto
qed

subsection \<open>The override on the loaded model\<close>

lemma setupLoadedModel_nextRef:
  assumes "setupLoadedModel model nm s = Inr s'"
  shows "nextRef s' = nextRef s"
proof -
  from setupLoadedModel_Inr [OF assms] obtain s1 m where
    r: "removePreviousModel s = Inr s1" and
    f: "frameModel m (installModel m s1) = Inr s'" by blast
  have 1: "nextRef s1 = nextRef s"
    using r by (auto simp: removePreviousModel_def Let_def emit_def split: option.splits sum.splits)
  have 2: "nextRef s' = nextRef (installModel m s1)"
    by (rule frameModel_fields(9) [OF f])
  show ?thesis by (simp add: 1 2 installModel_def Let_def emit_def)
qed

lemma tree_loaded_scenario:
  "tree (nameAndShadows scenarioObject nm) =
     Node \<lparr>uuid = 1, isMesh = True, geometry = Some 101,
           material = Single \<lparr>mref = 201,
                               props = [(''envMap'', JNull), (''envMapIntensity'', JNum 1)]\<rparr>,
           castShadow = True, receiveShadow = True\<rparr> []"
  by (simp add: nameAndShadows_fields scenarioObject_def plainMesh_def enableShadows_def
      setProp_def)

lemma loadedViewer_fields:
  "originalMaterials loadedViewer = Map.empty"
  "nextRef loadedViewer = 0"
  "hologramActive loadedViewer = False"
  using setupLoadedModel_current [OF loadedViewer_load]
    setupLoadedModel_nextRef [OF loadedViewer_load]
  by (auto simp: initViewer_def)

lemma enabled_once:
  "toggleHologram True loadedViewer =
     loadedViewer
       \<lparr>hologramActive := True,
        currentModel :=
          Some ((nameAndShadows scenarioObject ''box'')
                  \<lparr>position := \<lparr>vx = -1, vy = 1, vz = - (1 / 2)\<rparr>,
                   tree := Node \<lparr>uuid = 1, isMesh = True, geometry = Some 101,
                                 material = Single (createHologramMaterial 0),
                                 castShadow = False, receiveShadow = False\<rparr> []\<rparr>),
        originalMaterials :=
          [1 \<mapsto> Single \<lparr>mref = 201,
                             props = [(''envMap'', JNull), (''envMapIntensity'', JNum 1)]\<rparr>],
        nextRef := 1\<rparr>"
  by (simp add: toggleHologram_def currentModel_loadedViewer tree_loaded_scenario
      loadedViewer_fields holoEnable_def)


lemma enabled_twice:
  "toggleHologram True (toggleHologram True loadedViewer) =
     loadedViewer
       \<lparr>hologramActive := True,
        currentModel :=
          Some ((nameAndShadows scenarioObject ''box'')
                  \<lparr>position := \<lparr>vx = -1, vy = 1, vz = - (1 / 2)\<rparr>,
                   tree := Node \<lparr>uuid = 1, isMesh = True, geometry = Some 101,
                                 material = Single (createHologramMaterial 1),
                                 castShadow = False, receiveShadow = False\<rparr> []\<rparr>),
        originalMaterials :=
          [1 \<mapsto> Single \<lparr>mref = 201,
                             props = [(''envMap'', JNull), (''envMapIntensity'', JNum 1)]\<rparr>],
        nextRef := 2\<rparr>"
  by (simp add: enabled_once) (simp add: toggleHologram_def holoEnable_def)

lemma enabled_then_disabled:
  "toggleHologram False (toggleHologram True loadedViewer) =
     loadedViewer
       \<lparr>hologramActive := False,
        currentModel :=
          Some ((nameAndShadows scenarioObject ''box'')
                  \<lparr>position := \<lparr>vx = -1, vy = 1, vz = - (1 / 2)\<rparr>,
                   tree := Node \<lparr>uuid = 1, isMesh = True, geometry = Some 101,
                                 material = Single \<lparr>mref = 201,
                                   props = [(''envMap'', JNull), (''envMapIntensity'', JNum 1)]\<rparr>,
                                 castShadow = True, receiveShadow = True\<rparr> []\<rparr>),
        originalMaterials :=
          [1 \<mapsto> Single \<lparr>mref = 201,
                             props = [(''envMap'', JNull), (''envMapIntensity'', JNum 1)]\<rparr>],
        nextRef := 1,
        trace := trace loadedViewer @ [Dispose (Material 0)]\<rparr>"
  by (simp add: enabled_once)
     (simp add: toggleHologram_def holoDisable_def emit_def createHologramMaterial_def)

text \<open>
  C5, as stated, fails: after one enabling the mesh of the loaded model carries preview
  material 0, after a second enabling it carries preview material 1, a different object.
\<close>

theorem toggleHologram_twice_replaces:
  "map_option (map material \<circ> meshesOf) (currentModel (toggleHologram True loadedViewer)) =
     Some [Single (createHologramMaterial 0)] \<and>
   map_option (map material \<circ> meshesOf)
     (currentModel (toggleHologram True (toggleHologram True loadedViewer))) =
     Some [Single (createHologramMaterial 1)] \<and>
   createHologramMaterial 1 \<noteq> createHologramMaterial 0"
proof (intro conjI)
  show "map_option (map material \<circ> meshesOf) (currentModel (toggleHologram True loadedViewer)) =
     Some [Single (createHologramMaterial 0)]"
    by (simp add: enabled_once meshesOf_def)
  show "map_option (map material \<circ> meshesOf)
     (currentModel (toggleHologram True (toggleHologram True loadedViewer))) =
     Some [Single (createHologramMaterial 1)]"
    by (simp add: enabled_twice meshesOf_def)
  show "createHologramMaterial 1 \<noteq> createHologramMaterial 0"
    by (simp add: createHologramMaterial_def)
qed

theorem toggleHologram_enable_twice_witness:
  "currentModel loadedViewer =
     Some ((nameAndShadows scenarioObject ''box'')\<lparr>position := \<lparr>vx = -1, vy = 1, vz = - (1 / 2)\<rparr>\<rparr>) \<and>
   originalMaterials (toggleHologram True (toggleHologram True loadedViewer)) =
     originalMaterials (toggleHologram True loadedViewer) \<and>
   dom (originalMaterials (toggleHologram True loadedViewer)) = {1} \<and>
   (\<exists>m2 c q. currentModel (toggleHologram True (toggleHologram True loadedViewer)) = Some m2 \<and>
      c \<in> set (meshesOf m2) \<and>
      nextRef (toggleHologram True loadedViewer) \<le> q \<and>
      material c = Single (createHologramMaterial q))"
proof -
  note c = currentModel_loadedViewer
  from toggleHologram_enable_twice [OF c] obtain m2 where
    o: "originalMaterials (toggleHologram True (toggleHologram True loadedViewer)) =
          originalMaterials (toggleHologram True loadedViewer)" and
    m2: "currentModel (toggleHologram True (toggleHologram True loadedViewer)) = Some m2"
        "\<forall>c \<in> set (meshesOf m2).
           \<exists>q. nextRef (toggleHologram True loadedViewer) \<le> q \<and>
               material c = Single (createHologramMaterial q)"
    by blast
  have d: "dom (originalMaterials (toggleHologram True loadedViewer)) = {1}"
    by (simp add: enabled_once)
  have "meshesOf m2 \<noteq> []"
    using m2(1) by (auto simp: enabled_twice meshesOf_def)
  then obtain c where n: "c \<in> set (meshesOf m2)"
    by (cases "meshesOf m2") auto
  with m2(2) obtain q where
    q: "nextRef (toggleHologram True loadedViewer) \<le> q" "material c = Single (createHologramMaterial q)"
    by blast
  from c o d m2(1) n q show ?thesis by blast
qed

text \<open>
  C6, as stated, fails: after enabling and disabling the override on the loaded model the
  flag is clear and the binding map still holds the entry of the mesh.
\<close>

theorem toggleHologram_disable_keeps_entry:
  "hologramActive (toggleHologram False (toggleHologram True loadedViewer)) = False \<and>
   originalMaterials (toggleHologram False (toggleHologram True loadedViewer)) 1 =
     Some (Single \<lparr>mref = 201,
                    props = [(''envMap'', JNull), (''envMapIntensity'', JNum 1)]\<rparr>)"
  by (simp add: enabled_then_disabled)

theorem toggleHologram_disable_witness:
  "currentModel (toggleHologram True loadedViewer) =
     Some ((nameAndShadows scenarioObject ''box'')
                  \<lparr>position := \<lparr>vx = -1, vy = 1, vz = - (1 / 2)\<rparr>,
                   tree := Node \<lparr>uuid = 1, isMesh = True, geometry = Some 101,
                                 material = Single (createHologramMaterial 0),
                                 castShadow = False, receiveShadow = False\<rparr> []\<rparr>) \<and>
   originalMaterials (toggleHologram False (toggleHologram True loadedViewer)) =
     originalMaterials (toggleHologram True loadedViewer) \<and>
   setupLoadedModel scenarioObject ''box'' (initViewer False False) = Inr loadedViewer \<and>
   originalMaterials loadedViewer = Map.empty \<and> \<not> hologramActive loadedViewer"
proof -
  have c: "currentModel (toggleHologram True loadedViewer) =
     Some ((nameAndShadows scenarioObject ''box'')
                  \<lparr>position := \<lparr>vx = -1, vy = 1, vz = - (1 / 2)\<rparr>,
                   tree := Node \<lparr>uuid = 1, isMesh = True, geometry = Some 101,
                                 material = Single (createHologramMaterial 0),
                                 castShadow = False, receiveShadow = False\<rparr> []\<rparr>)"
    by (simp add: enabled_once)
  from toggleHologram_disable [of "toggleHologram True loadedViewer" _ scenarioObject "''box''"
      "initViewer False False" loadedViewer] c loadedViewer_load
  show ?thesis by blast
qed

subsection \<open>Environment maps\<close>

lemma visit_useEnvironment:
  "visit (useEnvironment t) objs tr =
     (map (\<lambda>c. fst (useEnvironment t c [])) objs,
      tr @ map (\<lambda>c. SetEnvMap (uuid c) t)
             (filter (\<lambda>c. isMesh c \<and> material c \<noteq> NoMaterial) objs))"
  by (induction objs arbitrary: tr) (auto simp: useEnvironment_def)

lemma applyEnvironmentTexture_None:
  assumes "currentModel s = None"
  shows "applyEnvironmentTexture t s =
     s\<lparr>sceneEnvironment := Some t, sceneBackground := BgTexture t,
       hdriToggle := map_option (\<lambda>c. True) (hdriToggle s),
       currentHDRI := Some t,
       trace := trace s @ [SetMapping t, SetEnvironment t, SetBackground t]
                @ (case currentHDRI s of None \<Rightarrow> [] | Some old \<Rightarrow> [Dispose (Texture old)])\<rparr>"
  using assms
  by (cases "currentHDRI s") (simp_all add: applyEnvironmentTexture_def Let_def emit_def)

lemma applyEnvironmentTexture_Some:
  assumes "currentModel s = Some m"
  shows "\<exists>tree'. flatten tree' = map (\<lambda>c. fst (useEnvironment t c [])) (flatten (tree m)) \<and>
     applyEnvironmentTexture t s =
     s\<lparr>sceneEnvironment := Some t, sceneBackground := BgTexture t,
       hdriToggle := map_option (\<lambda>c. True) (hdriToggle s),
       currentHDRI := Some t,
       currentModel := Some (m\<lparr>tree := tree'\<rparr>),
       trace := trace s @ [SetMapping t, SetEnvironment t, SetBackground t]
                @ (case currentHDRI s of None \<Rightarrow> [] | Some old \<Rightarrow> [Dispose (Texture old)])
                @ map (\<lambda>c. SetEnvMap (uuid c) t)
                    (filter (\<lambda>c. isMesh c \<and> material c \<noteq> NoMaterial) (flatten (tree m)))\<rparr>"
proof -
  obtain tree' tr where
    t: "traverse (useEnvironment t) (tree m) [] = (tree', tr)"
    by (metis prod.exhaust)
  from traverse_visit(1) [OF t] have
    f: "flatten tree' = map (\<lambda>c. fst (useEnvironment t c [])) (flatten (tree m))" and
    tr: "tr = map (\<lambda>c. SetEnvMap (uuid c) t)
             (filter (\<lambda>c. isMesh c \<and> material c \<noteq> NoMaterial) (flatten (tree m)))"
    by (simp_all add: visit_useEnvironment)
  show ?thesis
    using assms t f tr
    by (intro exI [of _ tree'])
       (cases "currentHDRI s"; simp add: applyEnvironmentTexture_def Let_def emit_def)
qed

lemma useEnvironment_envMap:
  assumes "isMesh c" and "material (fst (useEnvironment t c [])) = Single mat"
  shows "map_of (props mat) ''envMap'' = Some (JDisposable t)"
  using assms
  by (cases "material c")
     (auto simp: useEnvironment_def setProp_def update_conv')

lemma useEnvironment_isMesh: "isMesh (fst (useEnvironment t c [])) = isMesh c"
  by (simp add: useEnvironment_def)

lemma loadHDRI_Failed:
  "loadHDRI Failed s =
     s\<lparr>loadingText := ''Cargando HDRI...'', loadingVisible := False,
       trace := trace s @
         [CreateObjectURL, ConsoleError ''Error loading HDRI:'',
          Alert ''Error al cargar el archivo HDRI. Revisa la consola para mas detalles.'',
          RevokeObjectURL]\<rparr>"
  by (simp add: loadHDRI_def showLoading_def emit_def)

text \<open>A failed load of a preset writes a console warning and shows no alert.\<close>

lemma loadPresetEXR_Failed:
  "ENV_PRESETS key = Some label \<Longrightarrow>
   loadPresetEXR key Failed s =
     s\<lparr>loadingText := ''Cargando entorno: '' @ label @ ''...'', loadingVisible := False,
       trace := trace s @ [ConsoleWarn (''Could not load preset EXR ('' @ label @ ''):'')]\<rparr>"
  by (simp add: loadPresetEXR_def showLoading_def emit_def)

text \<open>
  C2, amended: on a successful load the new texture becomes the scene's environment, its
  background and the current environment map; the previous map is disposed after the
  environment and the background are set and before the meshes of the current model are
  visited; every mesh of the current model that holds a single material then has the new
  texture as its environment-map reference. When loading a file fails, the state is as
  before except that the loading overlay carries the loading text and is hidden, and the
  trace records the object URL, the console error, the alert and the release of the URL.
\<close>

theorem applyEnvironmentTexture_order:
  "sceneEnvironment (applyEnvironmentTexture t s) = Some t \<and>
   sceneBackground (applyEnvironmentTexture t s) = BgTexture t \<and>
   currentHDRI (applyEnvironmentTexture t s) = Some t \<and>
   trace (applyEnvironmentTexture t s) =
     trace s @ [SetMapping t, SetEnvironment t, SetBackground t]
     @ (case currentHDRI s of None \<Rightarrow> [] | Some old \<Rightarrow> [Dispose (Texture old)])
     @ (case currentModel s of
          None \<Rightarrow> []
        | Some m \<Rightarrow>
            map (\<lambda>c. SetEnvMap (uuid c) t)
              (filter (\<lambda>c. isMesh c \<and> material c \<noteq> NoMaterial) (flatten (tree m)))) \<and>
   (\<forall>m'. currentModel (applyEnvironmentTexture t s) = Some m' \<longrightarrow>
      (\<forall>c \<in> set (meshesOf m'). \<forall>mat. material c = Single mat \<longrightarrow>
         map_of (props mat) ''envMap'' = Some (JDisposable t))) \<and>
   loadHDRI Failed s =
     s\<lparr>loadingText := ''Cargando HDRI...'', loadingVisible := False,
       trace := trace s @
         [CreateObjectURL, ConsoleError ''Error loading HDRI:'',
          Alert ''Error al cargar el archivo HDRI. Revisa la consola para mas detalles.'',
          RevokeObjectURL]\<rparr>"
proof (cases "currentModel s")
  case None
  show ?thesis
    by (simp add: applyEnvironmentTexture_None [OF None] None loadHDRI_Failed)
next
  case (Some m)
  from applyEnvironmentTexture_Some [OF Some, of t] obtain tree' where
    f: "flatten tree' = map (\<lambda>c. fst (useEnvironment t c [])) (flatten (tree m))" and
    e: "applyEnvironmentTexture t s =
     s\<lparr>sceneEnvironment := Some t, sceneBackground := BgTexture t,
       hdriToggle := map_option (\<lambda>c. True) (hdriToggle s),
       currentHDRI := Some t,
       currentModel := Some (m\<lparr>tree := tree'\<rparr>),
       trace := trace s @ [SetMapping t, SetEnvironment t, SetBackground t]
                @ (case currentHDRI s of None \<Rightarrow> [] | Some old \<Rightarrow> [Dispose (Texture old)])
                @ map (\<lambda>c. SetEnvMap (uuid c) t)
                    (filter (\<lambda>c. isMesh c \<and> material c \<noteq> NoMaterial) (flatten (tree m)))\<rparr>"
    by blast
  have env: "map_of (props mat) ''envMap'' = Some (JDisposable t)"
    if "c \<in> set (meshesOf (m\<lparr>tree := tree'\<rparr>))" and "material c = Single mat" for c mat
  proof -
    from that(1) obtain c0 where "c = fst (useEnvironment t c0 [])" "isMesh c"
      by (auto simp: meshesOf_def f)
    with that(2) useEnvironment_envMap [of c0 t mat] show ?thesis
      by (simp add: useEnvironment_isMesh)
  qed
  show ?thesis
    using env by (simp add: e Some loadHDRI_Failed)
qed

subsection \<open>Environment maps on the loaded model\<close>

lemma setupLoadedModel_frame:
  assumes "setupLoadedModel model nm s = Inr s'"
  shows "currentHDRI s' = currentHDRI s \<and> sceneEnvironment s' = sceneEnvironment s \<and>
         sceneBackground s' = sceneBackground s \<and> hdriToggle s' = hdriToggle s"
proof -
  from setupLoadedModel_Inr [OF assms] obtain s1 m where
    r: "removePreviousModel s = Inr s1" and
    f: "frameModel m (installModel m s1) = Inr s'" by blast
  have 1: "currentHDRI s1 = currentHDRI s \<and> sceneEnvironment s1 = sceneEnvironment s \<and>
         sceneBackground s1 = sceneBackground s \<and> hdriToggle s1 = hdriToggle s"
    using r by (auto simp: removePreviousModel_def Let_def emit_def split: option.splits sum.splits)
  have 2: "currentHDRI s' = currentHDRI (installModel m s1) \<and>
         sceneEnvironment s' = sceneEnvironment (installModel m s1) \<and>
         sceneBackground s' = sceneBackground (installModel m s1) \<and>
         hdriToggle s' = hdriToggle (installModel m s1)"
    by (simp add: frameModel_fields [OF f])
  show ?thesis using 1 2 by (simp add: installModel_def Let_def emit_def)
qed

lemma currentHDRI_loadedViewer: "currentHDRI loadedViewer = None"
  using setupLoadedModel_frame [OF loadedViewer_load] by (simp add: initViewer_def)

lemma flatten_loaded:
  "flatten (tree ((nameAndShadows scenarioObject ''box'')\<lparr>position := p\<rparr>)) =
     [\<lparr>uuid = 1, isMesh = True, geometry = Some 101,
       material = Single \<lparr>mref = 201,
                           props = [(''envMap'', JNull), (''envMapIntensity'', JNum 1)]\<rparr>,
       castShadow = True, receiveShadow = True\<rparr>]"
  by (simp add: tree_loaded_scenario)

lemma first_environment:
  "\<exists>m1. currentModel (applyEnvironmentTexture 7 loadedViewer) = Some m1 \<and>
      flatten (tree m1) =
        [\<lparr>uuid = 1, isMesh = True, geometry = Some 101,
          material = Single \<lparr>mref = 201,
                              props = [(''envMap'', JDisposable 7), (''envMapIntensity'', JNum 1)]\<rparr>,
          castShadow = True, receiveShadow = True\<rparr>] \<and>
      currentHDRI (applyEnvironmentTexture 7 loadedViewer) = Some 7 \<and>
      trace (applyEnvironmentTexture 7 loadedViewer) =
        trace loadedViewer @ [SetMapping 7, SetEnvironment 7, SetBackground 7, SetEnvMap 1 7]"
proof -
  from applyEnvironmentTexture_Some [OF currentModel_loadedViewer, of 7] obtain tree' where
    f: "flatten tree' = map (\<lambda>c. fst (useEnvironment 7 c []))
          (flatten (tree ((nameAndShadows scenarioObject ''box'')\<lparr>position := \<lparr>vx = -1, vy = 1, vz = - (1 / 2)\<rparr>\<rparr>)))" and
    e: "applyEnvironmentTexture 7 loadedViewer =
     loadedViewer\<lparr>sceneEnvironment := Some 7, sceneBackground := BgTexture 7,
       hdriToggle := map_option (\<lambda>c. True) (hdriToggle loadedViewer),
       currentHDRI := Some 7,
       currentModel := Some (((nameAndShadows scenarioObject ''box'')\<lparr>position := \<lparr>vx = -1, vy = 1, vz = - (1 / 2)\<rparr>\<rparr>)\<lparr>tree := tree'\<rparr>),
       trace := trace loadedViewer @ [SetMapping 7, SetEnvironment 7, SetBackground 7]
                @ (case currentHDRI loadedViewer of None \<Rightarrow> [] | Some old \<Rightarrow> [Dispose (Texture old)])
                @ map (\<lambda>c. SetEnvMap (uuid c) 7)
                    (filter (\<lambda>c. isMesh c \<and> material c \<noteq> NoMaterial)
                       (flatten (tree ((nameAndShadows scenarioObject ''box'')\<lparr>position := \<lparr>vx = -1, vy = 1, vz = - (1 / 2)\<rparr>\<rparr>))))\<rparr>"
    by blast
  have f': "flatten tree' =
        [\<lparr>uuid = 1, isMesh = True, geometry = Some 101,
          material = Single \<lparr>mref = 201,
                              props = [(''envMap'', JDisposable 7), (''envMapIntensity'', JNum 1)]\<rparr>,
          castShadow = True, receiveShadow = True\<rparr>]"
    unfolding f flatten_loaded by (simp add: useEnvironment_def setProp_def)
  show ?thesis
    unfolding e flatten_loaded currentHDRI_loadedViewer
    by (simp add: f')
qed

text \<open>
  C2, as stated, fails: when a second environment map is applied to the loaded model, the
  first map is disposed after the scene's environment and background are set and before
  the mesh's environment-map reference is written.
\<close>

theorem applyEnvironmentTexture_disposes_early:
  "drop (length (trace (applyEnvironmentTexture 7 loadedViewer)))
     (trace (applyEnvironmentTexture 8 (applyEnvironmentTexture 7 loadedViewer))) =
     [SetMapping 8, SetEnvironment 8, SetBackground 8, Dispose (Texture 7), SetEnvMap 1 8]"
proof -
  let ?X = "applyEnvironmentTexture 7 loadedViewer"
  from first_environment obtain m1 where
    c: "currentModel ?X = Some m1" and
    f: "flatten (tree m1) =
        [\<lparr>uuid = 1, isMesh = True, geometry = Some 101,
          material = Single \<lparr>mref = 201,
                              props = [(''envMap'', JDisposable 7), (''envMapIntensity'', JNum 1)]\<rparr>,
          castShadow = True, receiveShadow = True\<rparr>]" and
    h: "currentHDRI ?X = Some 7"
    by blast
  from applyEnvironmentTexture_Some [OF c, of 8] have
    "trace (applyEnvironmentTexture 8 ?X) =
       trace ?X @ [SetMapping 8, SetEnvironment 8, SetBackground 8]
                @ (case currentHDRI ?X of None \<Rightarrow> [] | Some old \<Rightarrow> [Dispose (Texture old)])
                @ map (\<lambda>c. SetEnvMap (uuid c) 8)
                    (filter (\<lambda>c. isMesh c \<and> material c \<noteq> NoMaterial) (flatten (tree m1)))"
    by auto
  then have "trace (applyEnvironmentTexture 8 ?X) =
       trace ?X @ [SetMapping 8, SetEnvironment 8, SetBackground 8, Dispose (Texture 7), SetEnvMap 1 8]"
    by (simp add: h f)
  then show ?thesis by simp
qed

theorem applyEnvironmentTexture_order_witness:
  "currentHDRI (applyEnvironmentTexture 8 (applyEnvironmentTexture 7 loadedViewer)) = Some 8 \<and>
   (\<exists>m' c mat. currentModel (applyEnvironmentTexture 8 (applyEnvironmentTexture 7 loadedViewer)) = Some m' \<and>
      c \<in> set (meshesOf m') \<and> material c = Single mat \<and>
      map_of (props mat) ''envMap'' = Some (JDisposable 8))"
proof -
  let ?X = "applyEnvironmentTexture 7 loadedViewer"
  from first_environment obtain m1 where
    c: "currentModel ?X = Some m1" and
    f: "flatten (tree m1) =
        [\<lparr>uuid = 1, isMesh = True, geometry = Some 101,
          material = Single \<lparr>mref = 201,
                              props = [(''envMap'', JDisposable 7), (''envMapIntensity'', JNum 1)]\<rparr>,
          castShadow = True, receiveShadow = True\<rparr>]"
    by blast
  from applyEnvironmentTexture_Some [OF c, of 8] obtain tree' where
    f2: "flatten tree' = map (\<lambda>c. fst (useEnvironment 8 c [])) (flatten (tree m1))" and
    c2: "currentModel (applyEnvironmentTexture 8 ?X) = Some (m1\<lparr>tree := tree'\<rparr>)"
    by auto
  have "\<exists>c mat. c \<in> set (meshesOf (m1\<lparr>tree := tree'\<rparr>)) \<and> material c = Single mat"
    by (simp add: meshesOf_def f2 f useEnvironment_def setProp_def)
  then obtain c mat where
    n: "c \<in> set (meshesOf (m1\<lparr>tree := tree'\<rparr>))" "material c = Single mat"
    by blast
  from applyEnvironmentTexture_order [of 8 ?X] c2 n show ?thesis
    by blast
qed

subsection \<open>Replacing the current model\<close>

lemma attachedModels_remove1:
  "attachedModels (remove1 (ModelObj u) cs) = remove1 u (attachedModels cs)"
  by (induction cs rule: attachedModels.induct) auto

lemma attachedModels_append:
  "attachedModels (cs @ ds) = attachedModels cs @ attachedModels ds"
  by (induction cs rule: attachedModels.induct) auto

lemma lifecycle_append: "lifecycle (xs @ ys) = lifecycle xs @ lifecycle ys"
  by (simp add: lifecycle_def)

lemma lifecycle_Dispose: "lifecycle (map Dispose rs) = []"
  by (induction rs) (simp_all add: lifecycle_def)

lemma lifecycle_Nil: "lifecycle [] = []"
  by (simp add: lifecycle_def)

lemma disposeMaterials_lifecycle:
  "disposeMaterials ms = Inr t \<Longrightarrow> lifecycle t = []"
proof (induction ms arbitrary: t)
  case Nil
  then show ?case by (simp add: lifecycle_Nil)
next
  case (Cons m ms)
  show ?case
  proof (cases m)
    case None
    with Cons.prems show ?thesis by simp
  next
    case (Some m')
    with Cons.prems obtain t2 where t2: "disposeMaterials ms = Inr t2"
      and t: "t = map Dispose (refsOfMaterial m') @ t2"
      by (auto simp: disposeMaterial_Some simp del: disposeMaterial.simps split: sum.splits)
    from Cons.IH [OF t2] show ?thesis
      by (simp add: t lifecycle_append lifecycle_Dispose)
  qed
qed

lemma disposeSlot_lifecycle: "disposeSlot slot = Inr t \<Longrightarrow> lifecycle t = []"
proof (cases slot)
  case NoMaterial
  assume "disposeSlot slot = Inr t"
  with NoMaterial show ?thesis by (simp add: lifecycle_Nil)
next
  case (Single m)
  assume "disposeSlot slot = Inr t"
  with Single have "t = map Dispose (refsOfMaterial m)"
    by (simp add: disposeMaterial_Some del: disposeMaterial.simps)
  then show ?thesis by (simp add: lifecycle_Dispose)
next
  case (Multi ms ps)
  assume "disposeSlot slot = Inr t"
  with Multi show ?thesis by (simp add: disposeMaterials_lifecycle)
qed

lemma disposeChild_Inl: "disposeChild c (Inl e) = (c, Inl e)"
  by (simp add: disposeChild_def)

lemma disposeChild_Inr:
  "disposeChild c (Inr t) =
     (case disposeSlot (material c) of
        Inl e \<Rightarrow> (c, Inl e)
      | Inr t2 \<Rightarrow>
          (c, Inr ((case geometry c of None \<Rightarrow> t | Some g \<Rightarrow> t @ [Dispose (Geometry g)]) @ t2)))"
  by (simp add: disposeChild_def)

lemma visit_disposeChild_Inl: "visit disposeChild objs (Inl e) = (objs, Inl e)"
  by (induction objs) (simp_all add: disposeChild_Inl)

lemma visit_disposeChild_lifecycle:
  "snd (visit disposeChild objs (Inr t)) = Inr t' \<Longrightarrow> lifecycle t' = lifecycle t"
proof (induction objs arbitrary: t)
  case Nil
  then show ?case by simp
next
  case (Cons c objs)
  show ?case
  proof (cases "disposeSlot (material c)")
    case (Inl e)
    then have "snd (visit disposeChild (c # objs) (Inr t)) = Inl e"
      by (simp add: disposeChild_Inr visit_disposeChild_Inl)
    with Cons.prems show ?thesis by simp
  next
    case (Inr t2)
    let ?t1 = "(case geometry c of None \<Rightarrow> t | Some g \<Rightarrow> t @ [Dispose (Geometry g)]) @ t2"
    have step: "disposeChild c (Inr t) = (c, Inr ?t1)"
      by (simp add: disposeChild_Inr Inr)
    have l1: "lifecycle ?t1 = lifecycle t"
      using disposeSlot_lifecycle [OF Inr]
      by (cases "geometry c") (simp_all add: lifecycle_append, simp add: lifecycle_def)
    from Cons.prems have "snd (visit disposeChild objs (Inr ?t1)) = Inr t'"
      by (simp add: step split: prod.splits)
    from Cons.IH [OF this] l1 show ?thesis by simp
  qed
qed

lemma disposeObject_lifecycle:
  "disposeObject n = Inr t \<Longrightarrow> lifecycle t = [CallDisposeObject (rootUuid n)]"
  using visit_disposeChild_lifecycle [of "flatten n" "[CallDisposeObject (rootUuid n)]" t]
  by (simp add: disposeObject_def snd_traverse) (simp add: lifecycle_def)

text \<open>The identity of the current model.\<close>

lemma removePreviousModel_step:
  assumes "removePreviousModel s = Inr s1"
  shows "\<exists>t. trace s1 = trace s @ t \<and>
           lifecycle t = (case currentModel s of None \<Rightarrow> []
              | Some old \<Rightarrow> [GizmoDetach, SceneRemove (rootUuid (tree old)),
                             CallDisposeObject (rootUuid (tree old))])"
    and "sceneChildren s1 = (case currentModel s of None \<Rightarrow> sceneChildren s
              | Some old \<Rightarrow> sceneRemove (rootUuid (tree old)) (sceneChildren s))"
proof -
  show "\<exists>t. trace s1 = trace s @ t \<and>
           lifecycle t = (case currentModel s of None \<Rightarrow> []
              | Some old \<Rightarrow> [GizmoDetach, SceneRemove (rootUuid (tree old)),
                             CallDisposeObject (rootUuid (tree old))])"
  proof (cases "currentModel s")
    case None
    with assms show ?thesis by (simp add: removePreviousModel_def lifecycle_def)
  next
    case (Some old)
    with assms obtain t where d: "disposeObject (tree old) = Inr t"
      and s1: "trace s1 = trace s @ [GizmoDetach, SceneRemove (rootUuid (tree old))] @ t"
      by (auto simp: removePreviousModel_def Let_def emit_def split: sum.splits)
    have "lifecycle ([GizmoDetach, SceneRemove (rootUuid (tree old))] @ t) =
          [GizmoDetach, SceneRemove (rootUuid (tree old)), CallDisposeObject (rootUuid (tree old))]"
      unfolding lifecycle_append disposeObject_lifecycle [OF d]
      by (simp add: lifecycle_def)
    with s1 Some show ?thesis by auto
  qed
  show "sceneChildren s1 = (case currentModel s of None \<Rightarrow> sceneChildren s
              | Some old \<Rightarrow> sceneRemove (rootUuid (tree old)) (sceneChildren s))"
    using assms
    by (auto simp: removePreviousModel_def Let_def emit_def split: option.splits sum.splits)
qed


lemma centerAndScale_rootUuid:
  "centerAndScale (nameAndShadows model nm) = Inr m \<Longrightarrow> rootUuid (tree m) = rootUuid (tree model)"
  using centerAndScale_tree [of "nameAndShadows model nm" m]
  by (simp add: rootUuid_nameAndShadows)

lemma setupLoadedModel_step:
  assumes "setupLoadedModel model nm s = Inr s'"
  shows "\<exists>t. trace s' = trace s @ t \<and>
           lifecycle t =
             lifecycleOf (currentId s) [rootUuid (tree model)]"
    and "sceneChildren s' =
           sceneAdd (rootUuid (tree model))
             (case currentModel s of None \<Rightarrow> sceneChildren s
              | Some old \<Rightarrow> sceneRemove (rootUuid (tree old)) (sceneChildren s))"
    and "currentId s' = Some (rootUuid (tree model))"
proof -
  from setupLoadedModel_Inr [OF assms] obtain s1 m where
    r: "removePreviousModel s = Inr s1" and
    c: "centerAndScale (nameAndShadows model nm) = Inr m" and
    f: "frameModel m (installModel m s1) = Inr s'"
    by blast
  note u = centerAndScale_rootUuid [OF c]
  from removePreviousModel_step(1) [OF r] obtain t1 where
    t1: "trace s1 = trace s @ t1"
        "lifecycle t1 = (case currentModel s of None \<Rightarrow> []
              | Some old \<Rightarrow> [GizmoDetach, SceneRemove (rootUuid (tree old)),
                             CallDisposeObject (rootUuid (tree old))])"
    by blast
  let ?t2 = "[SceneAdd (rootUuid (tree model)), GizmoAttach (rootUuid (tree model)), OrbitUpdate]"
  have tr: "trace s' = trace s @ (t1 @ ?t2)"
    using frameModel_fields(7) [OF f] by (simp add: installModel_fields u t1(1))
  have l2: "lifecycle ?t2 = [SceneAdd (rootUuid (tree model)), GizmoAttach (rootUuid (tree model))]"
    by (simp add: lifecycle_def)
  have "lifecycle (t1 @ ?t2) =
          lifecycleOf (currentId s) [rootUuid (tree model)]"
    unfolding lifecycle_append l2 t1(2)
    by (cases "currentModel s") (simp_all add: currentId_def)
  with tr show "\<exists>t. trace s' = trace s @ t \<and>
           lifecycle t =
             lifecycleOf (currentId s) [rootUuid (tree model)]"
    by blast
  show "sceneChildren s' =
           sceneAdd (rootUuid (tree model))
             (case currentModel s of None \<Rightarrow> sceneChildren s
              | Some old \<Rightarrow> sceneRemove (rootUuid (tree old)) (sceneChildren s))"
    using frameModel_fields(6) [OF f] removePreviousModel_step(2) [OF r]
    by (simp add: installModel_fields u)
  show "currentId s' = Some (rootUuid (tree model))"
    using frameModel_fields(1) [OF f] by (simp add: installModel_fields u currentId_def)
qed

text \<open>
  The invariant of the scene graph: the model subtrees among the children of the scene are
  exactly the current model.
\<close>

lemma setupLoadedModel_invariant:
  assumes "setupLoadedModel model nm s = Inr s'"
    and "attachedModels (sceneChildren s) =
           (case currentModel s of None \<Rightarrow> [] | Some old \<Rightarrow> [rootUuid (tree old)])"
  shows "attachedModels (sceneChildren s') = [rootUuid (tree model)]"
  using assms(2)
  by (cases "currentModel s")
     (simp_all add: setupLoadedModel_step(2) [OF assms(1)] sceneAdd_def sceneRemove_def
        attachedModels_append attachedModels_remove1)

lemma lifecycleOf_Cons:
  "lifecycleOf prev (u # us) = lifecycleOf prev [u] @ lifecycleOf (Some u) us"
  by simp

lemma loadModels_general:
  assumes "loadModels ms s0 = Inr s"
    and "attachedModels (sceneChildren s0) =
           (case currentModel s0 of None \<Rightarrow> [] | Some old \<Rightarrow> [rootUuid (tree old)])"
  shows "attachedModels (sceneChildren s) =
           (case currentModel s of None \<Rightarrow> [] | Some old \<Rightarrow> [rootUuid (tree old)]) \<and>
         currentId s =
           (if ms = [] then currentId s0
            else Some (last (loadedIds ms))) \<and>
         (\<exists>t. trace s = trace s0 @ t \<and>
              lifecycle t =
                lifecycleOf (currentId s0)
                  (loadedIds ms))"
  using assms
proof (induction ms arbitrary: s0)
  case Nil
  then show ?case by (simp add: lifecycle_Nil loadedIds_def)
next
  case (Cons p ms)
  obtain model nm where p: "p = (model, nm)" by (cases p)
  from Cons.prems(1) obtain s1 where
    l: "setupLoadedModel model nm s0 = Inr s1" and
    rest: "loadModels ms s1 = Inr s"
    by (auto simp: p split: sum.splits)
  note c1 = setupLoadedModel_step(3) [OF l]
  have a1: "attachedModels (sceneChildren s1) = [rootUuid (tree model)]"
    by (rule setupLoadedModel_invariant [OF l Cons.prems(2)])
  have inv1: "attachedModels (sceneChildren s1) =
           (case currentModel s1 of None \<Rightarrow> [] | Some old \<Rightarrow> [rootUuid (tree old)])"
    using c1 a1 by (cases "currentModel s1") (simp_all add: currentId_def)
  from setupLoadedModel_step(1) [OF l] obtain t1 where
    t1: "trace s1 = trace s0 @ t1"
        "lifecycle t1 =
           lifecycleOf (currentId s0) [rootUuid (tree model)]"
    by blast
  from Cons.IH [OF rest inv1] obtain t2 where
    i: "attachedModels (sceneChildren s) =
           (case currentModel s of None \<Rightarrow> [] | Some old \<Rightarrow> [rootUuid (tree old)])"
       "currentId s =
           (if ms = [] then currentId s1
            else Some (last (loadedIds ms)))"
       "trace s = trace s1 @ t2"
       "lifecycle t2 =
                lifecycleOf (currentId s1)
                  (loadedIds ms)"
    by blast
  have tr: "trace s = trace s0 @ (t1 @ t2)"
    by (simp add: i(3) t1(1))
  have lc: "lifecycle (t1 @ t2) =
      lifecycleOf (currentId s0)
        (loadedIds (p # ms))"
    unfolding lifecycle_append t1(2) i(4) c1
    by (simp add: p loadedIds_def)
  have cur: "currentId s =
      Some (last (loadedIds (p # ms)))"
    using i(2) c1 by (simp add: p loadedIds_def)
  from i(1) cur tr lc show ?case by auto
qed

subsection \<open>Sequences of loads\<close>

lemma count_lifecycle:
  "isLifecycle e \<Longrightarrow> count_list (lifecycle t) e = count_list t e"
  by (induction t) (auto simp: lifecycle_def)

lemma count_lifecycleOf:
  "count_list (lifecycleOf prev us) (CallDisposeObject u) =
     (if us = [] then 0
      else count_list (butlast (case prev of None \<Rightarrow> us | Some p \<Rightarrow> p # us)) u)"
proof (induction us arbitrary: prev)
  case Nil
  show ?case by simp
next
  case (Cons a us)
  show ?case
    using Cons [of "Some a"]
    by (cases prev) auto
qed

lemma count_butlast_distinct:
  assumes "distinct us" and "u \<in> set us"
  shows "count_list (butlast us) u = (if u = last us then 0 else 1)"
proof -
  from assms(2) have ne: "us \<noteq> []" by auto
  then have us: "us = butlast us @ [last us]" by simp
  with assms(1) have d: "distinct (butlast us)" and n: "last us \<notin> set (butlast us)"
    by (metis distinct_append, metis distinct_append disjoint_iff list.set_intros(1))
  show ?thesis
  proof (cases "u = last us")
    case True
    with n show ?thesis by simp
  next
    case False
    with assms(2) us have "u \<in> set (butlast us)"
      by (metis Un_iff empty_iff empty_set set_ConsD set_append)
    with d False show ?thesis by (simp add: count_list_distinct)
  qed
qed

text \<open>
  C1: after every sequence of successful loads into a viewer without a model, the only
  model subtree attached to the scene graph is the model loaded last, which is the current
  model; and the lifecycle events of the trace are, load by load: the previous model is
  detached from the gizmo, removed from the scene graph and passed to the disposer, and
  only then the new model is added and attached. When the loaded models are distinct
  objects, each one but the last has been passed to the disposer exactly once and the
  last not at all.
\<close>

theorem loadModels_single_model:
  assumes "loadModels ms s0 = Inr s"
    and "currentModel s0 = None"
    and "attachedModels (sceneChildren s0) = []"
  shows "attachedModels (sceneChildren s) = (if ms = [] then [] else [last (loadedIds ms)]) \<and>
         currentId s = (if ms = [] then None else Some (last (loadedIds ms))) \<and>
         (\<exists>t. trace s = trace s0 @ t \<and>
              lifecycle t = lifecycleOf None (loadedIds ms) \<and>
              (distinct (loadedIds ms) \<longrightarrow>
                 (\<forall>u \<in> set (loadedIds ms).
                    count_list t (CallDisposeObject u) = (if u = last (loadedIds ms) then 0 else 1))))"
proof -
  have inv0: "attachedModels (sceneChildren s0) =
           (case currentModel s0 of None \<Rightarrow> [] | Some old \<Rightarrow> [rootUuid (tree old)])"
    using assms(2,3) by simp
  have c0: "currentId s0 = None"
    using assms(2) by (simp add: currentId_def)
  from loadModels_general [OF assms(1) inv0] obtain t where
    a: "attachedModels (sceneChildren s) =
           (case currentModel s of None \<Rightarrow> [] | Some old \<Rightarrow> [rootUuid (tree old)])" and
    c: "currentId s = (if ms = [] then None else Some (last (loadedIds ms)))" and
    t: "trace s = trace s0 @ t" "lifecycle t = lifecycleOf None (loadedIds ms)"
    by (auto simp: c0)
  have a': "attachedModels (sceneChildren s) = (if ms = [] then [] else [last (loadedIds ms)])"
    using a c by (cases "currentModel s") (auto simp: currentId_def split: if_splits)
  have cnt: "count_list t (CallDisposeObject u) = (if u = last (loadedIds ms) then 0 else 1)"
    if d: "distinct (loadedIds ms)" and u: "u \<in> set (loadedIds ms)" for u
  proof -
    from u have ne: "loadedIds ms \<noteq> []" by auto
    have "count_list t (CallDisposeObject u) = count_list (lifecycle t) (CallDisposeObject u)"
      by (simp add: count_lifecycle)
    also have "\<dots> = count_list (butlast (loadedIds ms)) u"
      using ne by (simp add: t(2) count_lifecycleOf)
    also have "\<dots> = (if u = last (loadedIds ms) then 0 else 1)"
      by (rule count_butlast_distinct [OF d u])
    finally show ?thesis .
  qed
  from a' c t cnt show ?thesis by blast
qed

subsection \<open>Two loads\<close>

lemma two_loads_succeed:
  "\<exists>s. loadModels [(scenarioObject, ''box''), (offCentreModel, ''beam'')] (initViewer False False) = Inr s"
proof -
  have fov: "cameraFov loadedViewer = 45"
    using setupLoadedModel_keeps [OF loadedViewer_load] by (simp add: fov_init)
  have wf: "case currentModel loadedViewer of None \<Rightarrow> True | Some old \<Rightarrow> wellFormed (tree old)"
    by (simp add: currentModel_loadedViewer tree_loaded_scenario wellFormed_def)
  have dim: "maxDimOf (setFromObject offCentreModel) \<noteq> 0"
    by (simp add: box_offCentreModel maxDimOf_def max3_def vsub_def)
  have "\<exists>s. setupLoadedModel offCentreModel ''beam'' loadedViewer = Inr s"
    by (rule setupLoadedModel_succeeds [OF _ _ wf dim]) (simp_all add: fov)
  then show ?thesis
    by (auto simp: loadedViewer_load)
qed

theorem loadModels_single_model_witness:
  "\<exists>s. loadModels [(scenarioObject, ''box''), (offCentreModel, ''beam'')] (initViewer False False) = Inr s \<and>
      currentModel (initViewer False False) = None \<and>
      attachedModels (sceneChildren (initViewer False False)) = [] \<and>
      attachedModels (sceneChildren s) = [3] \<and>
      currentId s = Some 3 \<and>
      lifecycle (trace s) =
        [SceneAdd 1, GizmoAttach 1, GizmoDetach, SceneRemove 1, CallDisposeObject 1,
         SceneAdd 3, GizmoAttach 3] \<and>
      count_list (trace s) (CallDisposeObject 1) = 1 \<and>
      count_list (trace s) (CallDisposeObject 3) = 0"
proof -
  let ?ms = "[(scenarioObject, ''box''), (offCentreModel, ''beam'')]"
  from two_loads_succeed obtain s where
    l: "loadModels ?ms (initViewer False False) = Inr s" ..
  have c0: "currentModel (initViewer False False) = None"
    and a0: "attachedModels (sceneChildren (initViewer False False)) = []"
    and t0: "trace (initViewer False False) = []"
    by (simp_all add: initViewer_def)
  have ids: "loadedIds ?ms = [1, 3]"
    by (simp add: loadedIds_def scenarioObject_def offCentreModel_def plainMesh_def rootUuid_def)
  from loadModels_single_model [OF l c0 a0] obtain t where
    r: "attachedModels (sceneChildren s) = [3]" "currentId s = Some 3"
       "trace s = t" "lifecycle t = lifecycleOf None [1, 3]"
       "count_list t (CallDisposeObject 1) = 1" "count_list t (CallDisposeObject 3) = 0"
    by (auto simp: ids t0)
  have "lifecycle (trace s) =
        [SceneAdd 1, GizmoAttach 1, GizmoDetach, SceneRemove 1, CallDisposeObject 1,
         SceneAdd 3, GizmoAttach 3]"
    by (simp add: r(3,4))
  with l c0 a0 r show ?thesis by blast
qed


end
